theory Spec2Isabelle
  imports Main "HOL-Library.Word" "HOL-Library.Sublist" "HOL-Library.AList"
begin

section \<open>JavaScript values, exceptions and the host\<close>

text \<open>
  The key container (\<^verbatim>\<open>src/key-container/local-storage-container.js\<close>) and the
  database wrapper (\<^verbatim>\<open>src/db.js\<close>) are embedded as functions over an explicit
  host state. A thrown exception is the \<open>Inl\<close> of a sum; \<open>undefined\<close> is \<open>None\<close>
  (or the value \<open>Undefined\<close> where any JavaScript value can stand).
\<close>

datatype exn = TypeError | RangeError | SyntaxError | QuotaExceededError | Error string

text \<open>
  The values \<^verbatim>\<open>JSON.parse\<close> can return, and \<open>undefined\<close>. A number is held as the
  text \<^verbatim>\<open>String()\<close> gives for it; an object lists its own properties, names distinct,
  in the order \<^verbatim>\<open>for ... in\<close> visits them.
\<close>

datatype jsval =
    Undefined
  | Null
  | JBool bool
  | JNum string
  | JStr string
  | JArr "jsval list"
  | JObj "(string \<times> jsval) list"

type_synonym bytes = "8 word list"

definition bindE :: "exn + 'a \<Rightarrow> ('a \<Rightarrow> exn + 'b) \<Rightarrow> exn + 'b" where
  "bindE m f = (case m of Inl e \<Rightarrow> Inl e | Inr x \<Rightarrow> f x)"

text \<open>\<^verbatim>\<open>localStorage\<close> calls that read or write a value, in the order they are made.\<close>

datatype ls_event = GetItem string | SetItem string string | RemoveItem string | Clear

text \<open>
  The host: \<^verbatim>\<open>localStorage\<close> (entries in key order, with the quota past which
  \<^verbatim>\<open>setItem\<close> throws), the log of its calls, the console, and the timer queue
  (handle and deadline in milliseconds of each pending \<^verbatim>\<open>setTimeout\<close>).
\<close>

record world =
  items :: "(string \<times> string) list"
  quota :: nat
  trace :: "ls_event list"
  console :: "string list"
  clock :: nat
  timers :: "(nat \<times> nat) list"
  next_timer :: nat

type_synonym 'a io = "world \<Rightarrow> (exn + 'a) \<times> world"

definition ret :: "'a \<Rightarrow> 'a io" where
  "ret x w = (Inr x, w)"

definition throw :: "exn \<Rightarrow> 'a io" where
  "throw e w = (Inl e, w)"

definition liftE :: "exn + 'a \<Rightarrow> 'a io" where
  "liftE r w = (r, w)"

definition bindS :: "'a io \<Rightarrow> ('a \<Rightarrow> 'b io) \<Rightarrow> 'b io" where
  "bindS m f w = (case m w of (Inl e, w1) \<Rightarrow> (Inl e, w1) | (Inr x, w1) \<Rightarrow> f x w1)"

definition console_error :: "string \<Rightarrow> world \<Rightarrow> world" where
  "console_error msg w = w\<lparr>console := console w @ [msg]\<rparr>"

definition console_log :: "string \<Rightarrow> world \<Rightarrow> world" where
  "console_log msg w = w\<lparr>console := console w @ [msg]\<rparr>"

subsection \<open>localStorage\<close>

definition ls_size :: "(string \<times> string) list \<Rightarrow> nat" where
  "ls_size its = sum_list (map (\<lambda>kv. length (fst kv) + length (snd kv)) its)"

definition getItem :: "string \<Rightarrow> world \<Rightarrow> string option \<times> world" where
  "getItem k w = (map_of (items w) k, w\<lparr>trace := trace w @ [GetItem k]\<rparr>)"

text \<open>
  \<^verbatim>\<open>setItem\<close> replaces the value of a key it has, appends a new key, and throws,
  storing nothing, when the entries would pass the quota.
\<close>

definition setItem :: "string \<Rightarrow> string \<Rightarrow> unit io" where
  "setItem k v w =
     (let its = AList.update k v (items w);
          w1 = w\<lparr>trace := trace w @ [SetItem k v]\<rparr>
      in if quota w < ls_size its then (Inl QuotaExceededError, w1)
         else (Inr (), w1\<lparr>items := its\<rparr>))"

definition removeItem :: "string \<Rightarrow> world \<Rightarrow> world" where
  "removeItem k w = w\<lparr>items := AList.delete k (items w), trace := trace w @ [RemoveItem k]\<rparr>"

definition clear :: "world \<Rightarrow> world" where
  "clear w = w\<lparr>items := [], trace := trace w @ [Clear]\<rparr>"

subsection \<open>Buffer and number rendering\<close>

text \<open>
  \<^verbatim>\<open>Buffer.alloc(4).writeUInt32BE(v)\<close>: the four bytes of \<open>v\<close>, most significant
  first; a value outside \<open>0 .. 2^32 - 1\<close> throws a range error.
\<close>

definition writeUInt32BE :: "nat \<Rightarrow> exn + bytes" where
  "writeUInt32BE v =
     (if v \<le> 4294967295
      then Inr [of_nat (v div 16777216), of_nat (v div 65536), of_nat (v div 256), of_nat v]
      else Inl RangeError)"

text \<open>\<^verbatim>\<open>buf.readUInt32BE()\<close>: reads the first four bytes; a shorter buffer throws.\<close>

definition readUInt32BE :: "bytes \<Rightarrow> exn + nat" where
  "readUInt32BE b =
     (case b of
        b0 # b1 # b2 # b3 # _ \<Rightarrow>
          Inr (unat b0 * 16777216 + unat b1 * 65536 + unat b2 * 256 + unat b3)
      | _ \<Rightarrow> Inl RangeError)"

definition dec_digit :: "nat \<Rightarrow> char" where
  "dec_digit n = ''0123456789'' ! n"

text \<open>A non-negative integer inside a template string: its decimal digits.\<close>

function dec :: "nat \<Rightarrow> string" where
  "dec n = (if n < 10 then [dec_digit n] else dec (n div 10) @ [dec_digit (n mod 10)])"
  by pat_completeness auto
termination
  by (relation "measure id") auto

text \<open>
  Modelled from the spec: \<^verbatim>\<open>utils.bytesToHex\<close> and \<^verbatim>\<open>utils.hexToBytes\<close> are not
  among the sources. The spec stores keys as "address-hex" and the counter as "a 4-byte
  big-endian value rendered as hex": two lower-case hexadecimal digits a byte, read back
  pair by pair up to the first pair that is not hexadecimal.
\<close>

definition hex_digit :: "nat \<Rightarrow> char" where
  "hex_digit n = ''0123456789abcdef'' ! n"

fun index_of :: "char \<Rightarrow> string \<Rightarrow> nat \<Rightarrow> nat option" where
  "index_of c [] i = None"
| "index_of c (d # ds) i = (if c = d then Some i else index_of c ds (Suc i))"

definition hex_val :: "char \<Rightarrow> nat option" where
  "hex_val c = index_of c ''0123456789abcdef'' 0"

definition bytesToHex :: "bytes \<Rightarrow> string" where
  "bytesToHex bs = concat (map (\<lambda>b. [hex_digit (unat b div 16), hex_digit (unat b mod 16)]) bs)"

fun hexToBytes :: "string \<Rightarrow> bytes" where
  "hexToBytes (a # b # cs) =
     (case (hex_val a, hex_val b) of
        (Some x, Some y) \<Rightarrow> of_nat (x * 16 + y) # hexToBytes cs
      | _ \<Rightarrow> [])"
| "hexToBytes _ = []"

subsection \<open>Objects\<close>

text \<open>
  Reading a property by destructuring or by \<open>obj.name\<close>, for the names this code reads
  (\<open>keySeedEncrypted\<close>, \<open>pathKeySeedEncrypted\<close>), which no string, array, number or
  prototype carries: \<open>null\<close> and \<open>undefined\<close> throw, anything but an object with the
  property gives \<open>undefined\<close>.
\<close>

fun get_prop :: "jsval \<Rightarrow> string \<Rightarrow> exn + jsval" where
  "get_prop Undefined k = Inl TypeError"
| "get_prop Null k = Inl TypeError"
| "get_prop (JObj ps) k = Inr (case map_of ps k of None \<Rightarrow> Undefined | Some v \<Rightarrow> v)"
| "get_prop v k = Inr Undefined"

text \<open>
  \<open>obj[k] = v\<close> on an object literal, \<open>v\<close> a string: the name \<open>__proto__\<close> is the
  prototype's setter, which ignores a string; any other name becomes an own property.
\<close>

definition obj_set :: "(string \<times> jsval) list \<Rightarrow> string \<Rightarrow> string \<Rightarrow> (string \<times> jsval) list" where
  "obj_set obj k v = (if k = ''__proto__'' then obj else AList.update k (JStr v) obj)"

text \<open>
  \<^verbatim>\<open>String(v)\<close>, which \<^verbatim>\<open>setItem\<close> applies to its value, and the prefix
  concatenation to an array of keys. An array joins its elements with commas, \<open>null\<close> an
  empty string there; an object whose own \<open>toString\<close> is not a function throws.
\<close>

fun to_String :: "jsval \<Rightarrow> exn + string"
  and join_elems :: "jsval list \<Rightarrow> exn + string" where
  "to_String Undefined = Inr ''undefined''"
| "to_String Null = Inr ''null''"
| "to_String (JBool b) = Inr (if b then ''true'' else ''false'')"
| "to_String (JNum s) = Inr s"
| "to_String (JStr s) = Inr s"
| "to_String (JArr vs) = join_elems vs"
| "to_String (JObj ps) =
     (if ''toString'' \<in> set (map fst ps) then Inl TypeError else Inr ''[object Object]'')"
| "join_elems [] = Inr []"
| "join_elems (v # vs) =
     bindE (if v = Null \<or> v = Undefined then Inr [] else to_String v) (\<lambda>s.
       if vs = [] then Inr s else bindE (join_elems vs) (\<lambda>r. Inr (s @ '','' @ r)))"

text \<open>An array of strings next to a string prefix: its elements joined by commas.\<close>

fun array_toString :: "string list \<Rightarrow> string" where
  "array_toString [] = []"
| "array_toString [s] = s"
| "array_toString (s # ss) = s @ '','' @ array_toString ss"

text \<open>\<^verbatim>\<open>s.replace(pat, '')\<close> with a string pattern: the first occurrence is removed.\<close>

fun replace_first :: "string \<Rightarrow> string \<Rightarrow> string" where
  "replace_first pat [] = []"
| "replace_first pat (c # cs) =
     (if prefix pat (c # cs) then drop (length pat) (c # cs) else c # replace_first pat cs)"

text \<open>
  The pairs \<^verbatim>\<open>for (property in v) if (v.hasOwnProperty(property))\<close> visits with
  \<open>v[property]\<close>: none for \<open>null\<close>, a boolean or a number, the indices of a string or
  an array, the own properties of an object; an object with an own property named
  \<open>hasOwnProperty\<close> throws at the first visit, the property not being a function.
\<close>

fun forin_entries :: "jsval \<Rightarrow> exn + (string \<times> jsval) list" where
  "forin_entries (JStr s) = Inr (zip (map dec [0..<length s]) (map (\<lambda>c. JStr [c]) s))"
| "forin_entries (JArr vs) = Inr (zip (map dec [0..<length vs]) vs)"
| "forin_entries (JObj ps) =
     (if ps \<noteq> [] \<and> ''hasOwnProperty'' \<in> set (map fst ps) then Inl TypeError else Inr ps)"
| "forin_entries v = Inr []"

section \<open>The primitives and constants the sources import\<close>

record hdnode =
  privateKey :: bytes
  publicKey :: bytes
  chainCode :: bytes

text \<open>
  The constants of \<^verbatim>\<open>constants.js\<close>, the functions of \<^verbatim>\<open>kc-utils.js\<close> and of the
  libraries (bip39, hdkey, ethereumjs-util) and \<^verbatim>\<open>JSON\<close> are parameters: their code
  is not among the sources. Of the cryptography only what the spec lets fail can fail
  here, with the libraries' own argument checks.
\<close>

record prims =
  KCPREFIX :: string
  DBPREFIX :: string
  IDRECOVERYPREFIX :: string
  passToKey :: "string \<Rightarrow> string \<Rightarrow> string"
  encrypt :: "string \<Rightarrow> string \<Rightarrow> string"
  decrypt :: "string \<Rightarrow> jsval \<Rightarrow> exn + string"
  concatSignature :: "bytes \<Rightarrow> bytes \<Rightarrow> nat \<Rightarrow> bytes \<Rightarrow> bytes \<Rightarrow> jsval"
  validateMnemonic :: "string \<Rightarrow> bool"
  entropyToMnemonic :: "bytes \<Rightarrow> exn + string"
  fromMasterSeed :: "jsval \<Rightarrow> exn + hdnode"
  derive :: "hdnode \<Rightarrow> string \<Rightarrow> exn + hdnode"
  privateToAddress :: "bytes \<Rightarrow> exn + bytes"
  toBuffer :: "jsval \<Rightarrow> exn + bytes"
  hashPersonalMessage :: "bytes \<Rightarrow> bytes"
  ecsign :: "bytes \<Rightarrow> bytes \<Rightarrow> exn + (nat \<times> bytes \<times> bytes)"
  JSON_stringify :: "jsval \<Rightarrow> string"
  JSON_parse :: "string \<Rightarrow> exn + jsval"

definition opt_val :: "string option \<Rightarrow> jsval" where
  "opt_val r = (case r of None \<Rightarrow> Null | Some s \<Rightarrow> JStr s)"

definition undef_val :: "string option \<Rightarrow> jsval" where
  "undef_val r = (case r of None \<Rightarrow> Undefined | Some s \<Rightarrow> JStr s)"

text \<open>\<^verbatim>\<open>JSON.parse\<close> of what \<^verbatim>\<open>getItem\<close> returned: \<open>null\<close> reads as the text \<open>null\<close>.\<close>

definition JSON_parse_item :: "prims \<Rightarrow> string option \<Rightarrow> exn + jsval" where
  "JSON_parse_item P r = (case r of None \<Rightarrow> Inr Null | Some s \<Rightarrow> JSON_parse P s)"

section \<open>Db (src/db.js)\<close>

definition db_insert :: "prims \<Rightarrow> string \<Rightarrow> string \<Rightarrow> unit io" where
  "db_insert P key val = setItem (DBPREFIX P @ key) val"

definition db_get :: "prims \<Rightarrow> string \<Rightarrow> world \<Rightarrow> string option \<times> world" where
  "db_get P key = getItem (DBPREFIX P @ key)"

definition db_delete :: "prims \<Rightarrow> string \<Rightarrow> world \<Rightarrow> world" where
  "db_delete P key = removeItem (DBPREFIX P @ key)"

definition db_deleteAll :: "world \<Rightarrow> world" where
  "db_deleteAll = clear"

text \<open>
  Modelled from the spec: \<^verbatim>\<open>listKeys\<close>, which the container calls on its database
  and \<^verbatim>\<open>src/db.js\<close> does not define. The spec gives the store
  "\<open>listKeys(prefix) -> sequence<string>\<close>", a "prefix-based key listing" of a namespace
  whose prefix is "added transparently": the keys of the namespace that start with the
  given prefix, by the names \<^verbatim>\<open>get\<close> takes.
\<close>

definition db_listKeys :: "prims \<Rightarrow> string \<Rightarrow> world \<Rightarrow> string list" where
  "db_listKeys P p w =
     map (drop (length (DBPREFIX P))) (filter (prefix (DBPREFIX P @ p)) (map fst (items w)))"

text \<open>
  \<^verbatim>\<open>export\<close>: every entry whose key contains the database prefix goes into an
  object, which is serialised and encrypted under the container's key. The value read
  for a listed key is a string.
\<close>

fun export_loop ::
  "prims \<Rightarrow> string list \<Rightarrow> (string \<times> jsval) list \<Rightarrow> world \<Rightarrow> (string \<times> jsval) list \<times> world" where
  "export_loop P [] dbExp w = (dbExp, w)"
| "export_loop P (k # ks) dbExp w =
     (if sublist (DBPREFIX P) k
      then (let (v, w1) = getItem k w
            in export_loop P ks (case v of None \<Rightarrow> dbExp | Some s \<Rightarrow> obj_set dbExp k s) w1)
      else export_loop P ks dbExp w)"

definition db_export :: "prims \<Rightarrow> string \<Rightarrow> world \<Rightarrow> string option \<times> world" where
  "db_export P kc_encryptionKey w =
     (if kc_encryptionKey = []
      then (None, console_log ''Error: KeyContainer not unlocked'' w)
      else (let (dbExp, w1) = export_loop P (map fst (items w)) [] w
            in (Some (encrypt P kc_encryptionKey (JSON_stringify P (JObj dbExp))), w1)))"

text \<open>
  \<^verbatim>\<open>import\<close>: decrypts, parses, and writes every own property of the parsed value
  back with \<^verbatim>\<open>setItem\<close>, which turns the value into a string.
\<close>

fun import_loop :: "(string \<times> jsval) list \<Rightarrow> unit io" where
  "import_loop [] = ret ()"
| "import_loop (pv # ps) =
     bindS (liftE (to_String (snd pv))) (\<lambda>s.
     bindS (setItem (fst pv) s) (\<lambda>u. import_loop ps))"

definition db_import :: "prims \<Rightarrow> string \<Rightarrow> jsval \<Rightarrow> unit io" where
  "db_import P kc_encryptionKey dbEncr =
     bindS (liftE (bindE (decrypt P kc_encryptionKey dbEncr) (\<lambda>dbExpStr.
                   bindE (JSON_parse P dbExpStr) forin_entries)))
       import_loop"

section \<open>LocalStorageContainer (src/key-container/local-storage-container.js)\<close>

record container =
  encryptionKey :: string
  timer :: "nat option"

text \<open>The constructor: no key, and a timer field that is no timer handle.\<close>

definition new_container :: container where
  "new_container = \<lparr>encryptionKey = [], timer = None\<rparr>"

definition setTimeout :: "nat \<Rightarrow> world \<Rightarrow> nat \<times> world" where
  "setTimeout delay w =
     (next_timer w,
      w\<lparr>timers := timers w @ [(next_timer w, clock w + delay)],
        next_timer := Suc (next_timer w)\<rparr>)"

definition clearTimeout :: "nat option \<Rightarrow> world \<Rightarrow> world" where
  "clearTimeout h w =
     (case h of None \<Rightarrow> w | Some i \<Rightarrow> w\<lparr>timers := filter (\<lambda>t. fst t \<noteq> i) (timers w)\<rparr>)"

definition unlock :: "prims \<Rightarrow> string \<Rightarrow> container \<Rightarrow> world \<Rightarrow> container \<times> world" where
  "unlock P passphrase kc w =
     (let (h, w1) = setTimeout 30000 w
      in (kc\<lparr>encryptionKey := passToKey P passphrase ''salt'', timer := Some h\<rparr>, w1))"

definition lock :: "container \<Rightarrow> world \<Rightarrow> container \<times> world" where
  "lock kc w =
     (if encryptionKey kc = []
      then (kc, console_error ''Error: KeyContainer not unlocked'' w)
      else (kc\<lparr>encryptionKey := []\<rparr>, clearTimeout (timer kc) w))"

definition isUnlock :: "container \<Rightarrow> bool" where
  "isUnlock kc = (encryptionKey kc \<noteq> [])"

text \<open>
  Time passing by \<open>dt\<close> milliseconds with no call running: every pending timer whose
  deadline is reached fires its callback, which blanks the key, and leaves the queue.
\<close>

definition advance :: "nat \<Rightarrow> container \<Rightarrow> world \<Rightarrow> container \<times> world" where
  "advance dt kc w =
     (let t = clock w + dt;
          due = filter (\<lambda>x. snd x \<le> t) (timers w)
      in ((if due = [] then kc else kc\<lparr>encryptionKey := []\<rparr>),
          w\<lparr>clock := t, timers := filter (\<lambda>x. \<not> snd x \<le> t) (timers w)\<rparr>))"

definition saveObject :: "prims \<Rightarrow> container \<Rightarrow> string \<Rightarrow> jsval \<Rightarrow> world \<Rightarrow> bool \<times> world" where
  "saveObject P kc key val w =
     (case db_insert P (KCPREFIX P @ key) (JSON_stringify P val) w of
        (Inl e, w1) \<Rightarrow> (False, w1)
      | (Inr u, w1) \<Rightarrow> (True, w1))"

definition saveMasterSeed :: "prims \<Rightarrow> container \<Rightarrow> string \<Rightarrow> unit io" where
  "saveMasterSeed P kc masterSeed =
     db_insert P (KCPREFIX P @ ''masterSeed'') (encrypt P (encryptionKey kc) masterSeed)"

text \<open>
  The default of \<open>mnemonic\<close> is a fresh random mnemonic: \<open>fresh\<close> is what
  \<^verbatim>\<open>bip39.generateMnemonic()\<close> returns when the argument is missing.
\<close>

definition generateMasterSeed :: "prims \<Rightarrow> container \<Rightarrow> string \<Rightarrow> string option \<Rightarrow> bool io" where
  "generateMasterSeed P kc fresh mnemonic =
     (let m = (case mnemonic of None \<Rightarrow> fresh | Some s \<Rightarrow> s)
      in if isUnlock kc \<and> validateMnemonic P m
         then bindS (saveMasterSeed P kc m) (\<lambda>u. ret True)
         else ret False)"

definition getMasterSeed :: "prims \<Rightarrow> container \<Rightarrow> string option \<Rightarrow> string option io" where
  "getMasterSeed P kc pass w =
     (let p = (case pass of None \<Rightarrow> encryptionKey kc | Some s \<Rightarrow> s)
      in if isUnlock kc
         then (let seedKey = db_listKeys P (KCPREFIX P @ ''masterSeed'') w
               in if length seedKey = 0 then (Inr None, w)
                  else (let (seedEncrypted, w1) = db_get P (array_toString seedKey) w
                        in (case decrypt P p (opt_val seedEncrypted) of
                              Inl e \<Rightarrow> (Inr None, w1)
                            | Inr mnemonic \<Rightarrow> (Inr (Some mnemonic), w1))))
         else (Inr None, w))"

text \<open>The record stored under the \<open>keySeed\<close> label.\<close>

definition keySeed_record :: "prims \<Rightarrow> string \<Rightarrow> string \<Rightarrow> bytes \<Rightarrow> string" where
  "keySeed_record P key keySeed pathKey =
     JSON_stringify P
       (JObj [(''keySeedEncrypted'', JStr (encrypt P key keySeed)),
              (''pathKeySeedEncrypted'', JStr (encrypt P key (bytesToHex pathKey)))])"

definition pathRoot :: string where
  "pathRoot = ''m/44'/60'/0'' @ [CHR 0x27]"

definition pathRecovery :: string where
  "pathRecovery = ''m/44'/60'/1'' @ [CHR 0x27]"

definition generateKeySeed :: "prims \<Rightarrow> container \<Rightarrow> jsval \<Rightarrow> bool io" where
  "generateKeySeed P kc masterSeed =
     (if isUnlock kc
      then bindS (liftE (fromMasterSeed P masterSeed)) (\<lambda>root.
           bindS (liftE (derive P root pathRoot)) (\<lambda>nodeId.
           bindS (liftE (entropyToMnemonic P (privateKey nodeId))) (\<lambda>keySeed.
           bindS (liftE (writeUInt32BE 0)) (\<lambda>pathKey.
           bindS (db_insert P (KCPREFIX P @ ''keySeed'')
                    (keySeed_record P (encryptionKey kc) keySeed pathKey))
             (\<lambda>u. ret True)))))
      else ret False)"

definition getKeySeed :: "prims \<Rightarrow> container \<Rightarrow> (string \<times> nat) option io" where
  "getKeySeed P kc w =
     (if isUnlock kc
      then (let keySeedDb = db_listKeys P (KCPREFIX P @ ''keySeed'') w
            in if length keySeedDb = 0 then (Inr None, w)
               else (let (r, w1) = db_get P (array_toString keySeedDb) w
                     in (bindE (JSON_parse_item P r) (\<lambda>obj.
                         bindE (get_prop obj ''keySeedEncrypted'') (\<lambda>keySeedEncrypted.
                         bindE (get_prop obj ''pathKeySeedEncrypted'') (\<lambda>pathKeySeedEncrypted.
                         bindE (decrypt P (encryptionKey kc) keySeedEncrypted) (\<lambda>keySeed.
                         bindE (decrypt P (encryptionKey kc) pathKeySeedEncrypted) (\<lambda>pathKeySeed.
                         bindE (readUInt32BE (hexToBytes pathKeySeed)) (\<lambda>pathKey.
                         Inr (Some (keySeed, pathKey)))))))), w1)))
      else (Inr None, w))"

definition increaseKeyPath :: "prims \<Rightarrow> container \<Rightarrow> bool io" where
  "increaseKeyPath P kc =
     (if isUnlock kc
      then bindS (getKeySeed P kc) (\<lambda>r.
             case r of
               None \<Rightarrow> throw TypeError
             | Some (keySeed, pathKey) \<Rightarrow>
                 bindS (liftE (writeUInt32BE (pathKey + 1))) (\<lambda>pathKeyDb.
                 bindS (db_insert P (KCPREFIX P @ ''keySeed'')
                          (keySeed_record P (encryptionKey kc) keySeed pathKeyDb))
                   (\<lambda>u. ret True)))
      else ret False)"

definition generateRecoveryAddr :: "prims \<Rightarrow> container \<Rightarrow> jsval \<Rightarrow> string option io" where
  "generateRecoveryAddr P kc masterSeed =
     (if isUnlock kc
      then bindS (liftE (fromMasterSeed P masterSeed)) (\<lambda>root.
           bindS (liftE (derive P root pathRecovery)) (\<lambda>addrNodeRecovery.
           bindS (liftE (privateToAddress P (privateKey addrNodeRecovery))) (\<lambda>addressRecovery.
           bindS (db_insert P (KCPREFIX P @ IDRECOVERYPREFIX P @ bytesToHex addressRecovery)
                    (encrypt P (encryptionKey kc) (bytesToHex (privateKey addrNodeRecovery))))
             (\<lambda>u. ret (Some (bytesToHex addressRecovery))))))
      else ret None)"

definition keyPath :: "nat \<Rightarrow> nat \<Rightarrow> string" where
  "keyPath keyProfilePath i = ''m/44'/60'/0'/'' @ dec keyProfilePath @ ''/'' @ dec i"

definition generateSingleKey :: "prims \<Rightarrow> container \<Rightarrow> nat \<Rightarrow> nat \<Rightarrow> string option io" where
  "generateSingleKey P kc keyProfilePath keyIndex =
     (if isUnlock kc
      then bindS (getKeySeed P kc) (\<lambda>r.
             case r of
               None \<Rightarrow> throw TypeError
             | Some (keySeed, pathKey) \<Rightarrow>
                 bindS (liftE (fromMasterSeed P (JStr keySeed))) (\<lambda>root.
                 bindS (liftE (derive P root (keyPath keyProfilePath keyIndex))) (\<lambda>addrNode.
                 bindS (liftE (privateToAddress P (privateKey addrNode))) (\<lambda>address.
                 bindS (db_insert P (KCPREFIX P @ bytesToHex address)
                          (encrypt P (encryptionKey kc) (bytesToHex (privateKey addrNode))))
                   (\<lambda>u. ret (Some (bytesToHex address)))))))
      else ret None)"

text \<open>Reads the key names only: no value is read and nothing is decrypted.\<close>

definition getRecoveryAddr :: "prims \<Rightarrow> container \<Rightarrow> world \<Rightarrow> string option" where
  "getRecoveryAddr P kc w =
     (if isUnlock kc
      then (let idSeedKey = db_listKeys P (KCPREFIX P @ IDRECOVERYPREFIX P) w
            in if length idSeedKey = 0 then None
               else Some (replace_first (KCPREFIX P @ IDRECOVERYPREFIX P) (hd idSeedKey)))
      else None)"

text \<open>
  The loop of \<^verbatim>\<open>generateKeysFromKeyPath\<close> over the key indices still to derive,
  \<open>keys\<close> the identifiers pushed so far.
\<close>

fun derive_keys ::
  "prims \<Rightarrow> container \<Rightarrow> hdnode \<Rightarrow> nat \<Rightarrow> nat list \<Rightarrow> string list \<Rightarrow> string list io" where
  "derive_keys P kc root pathProfile [] keys = ret keys"
| "derive_keys P kc root pathProfile (i # ixs) keys =
     bindS (liftE (derive P root (keyPath pathProfile i))) (\<lambda>addrNode.
     bindS (liftE (privateToAddress P (privateKey addrNode))) (\<lambda>address.
     bindS (db_insert P (KCPREFIX P @ bytesToHex address)
              (encrypt P (encryptionKey kc) (bytesToHex (privateKey addrNode))))
       (\<lambda>u. if i = 0
             then bindS (db_insert P (KCPREFIX P @ bytesToHex (publicKey addrNode))
                           (encrypt P (encryptionKey kc) (bytesToHex (privateKey addrNode))))
                    (\<lambda>u. derive_keys P kc root pathProfile ixs
                            (keys @ [bytesToHex address, bytesToHex (publicKey addrNode)]))
             else derive_keys P kc root pathProfile ixs (keys @ [bytesToHex address]))))"

text \<open>
  The callers pass every argument but the number of keys, so no default mnemonic or
  profile is drawn; \<open>numberOfDerivedKeys\<close> is 3 when \<^verbatim>\<open>createKeys\<close> calls.
\<close>

definition generateKeysFromKeyPath ::
  "prims \<Rightarrow> container \<Rightarrow> string \<Rightarrow> nat \<Rightarrow> nat \<Rightarrow> string list option io" where
  "generateKeysFromKeyPath P kc mnemonic pathProfile numberOfDerivedKeys =
     (if \<not> isUnlock kc \<or> \<not> validateMnemonic P mnemonic
      then (\<lambda>w. (Inr None, console_error ''Error: KeyContainer not unlocked'' w))
      else bindS (liftE (fromMasterSeed P (JStr mnemonic))) (\<lambda>root.
           bindS (derive_keys P kc root pathProfile [0..<numberOfDerivedKeys] [])
             (\<lambda>keys. ret (Some keys))))"

definition createKeys :: "prims \<Rightarrow> container \<Rightarrow> string list option io" where
  "createKeys P kc =
     (if isUnlock kc
      then bindS (getKeySeed P kc) (\<lambda>objectKeySeed0.
           bindS (if objectKeySeed0 = None
                  then bindS (getMasterSeed P kc None) (\<lambda>masterSeed.
                       bindS (generateKeySeed P kc (undef_val masterSeed)) (\<lambda>ok.
                         if ok then getKeySeed P kc else ret objectKeySeed0))
                  else ret objectKeySeed0) (\<lambda>objectKeySeed.
           case objectKeySeed of
             None \<Rightarrow> throw TypeError
           | Some (keySeed, pathKey) \<Rightarrow>
               bindS (generateKeysFromKeyPath P kc keySeed pathKey 3) (\<lambda>r.
                 case r of
                   None \<Rightarrow> throw TypeError
                 | Some keys \<Rightarrow> bindS (increaseKeyPath P kc) (\<lambda>b. ret (Some keys)))))
      else ret None)"

text \<open>\<open>w_privKey\<close> is the private key of the random wallet \<^verbatim>\<open>ethWallet.generate()\<close> draws.\<close>

definition generateKeyRand :: "prims \<Rightarrow> container \<Rightarrow> bytes \<Rightarrow> string option io" where
  "generateKeyRand P kc w_privKey =
     (if encryptionKey kc = []
      then (\<lambda>w. (Inr None, console_error ''Error: KeyContainer not unlocked'' w))
      else bindS (liftE (privateToAddress P w_privKey)) (\<lambda>address.
           bindS (db_insert P (KCPREFIX P @ bytesToHex address)
                    (encrypt P (encryptionKey kc) (bytesToHex w_privKey)))
             (\<lambda>u. ret (Some (bytesToHex address)))))"

text \<open>
  \<open>privKHex.constructor\<close> is read only when the container has a key; it throws on
  \<open>null\<close> and \<open>undefined\<close> and is \<open>String\<close> for a string alone.
\<close>

definition importKey :: "prims \<Rightarrow> container \<Rightarrow> jsval \<Rightarrow> string option io" where
  "importKey P kc privKHex =
     (if encryptionKey kc = []
      then (\<lambda>w. (Inr None, console_error ''Error: KeyContainer not unlocked'' w))
      else (case privKHex of
              Undefined \<Rightarrow> throw TypeError
            | Null \<Rightarrow> throw TypeError
            | JStr s \<Rightarrow>
                bindS (liftE (privateToAddress P (hexToBytes s))) (\<lambda>address.
                bindS (db_insert P (KCPREFIX P @ bytesToHex address)
                         (encrypt P (encryptionKey kc) s))
                  (\<lambda>u. ret (Some (bytesToHex address))))
            | _ \<Rightarrow> (\<lambda>w. (Inr None, console_error ''Error: KeyContainer not unlocked'' w))))"

definition sign :: "prims \<Rightarrow> container \<Rightarrow> string \<Rightarrow> jsval \<Rightarrow> jsval io" where
  "sign P kc addressHex data =
     (if encryptionKey kc = []
      then (\<lambda>w. (Inr (JStr ''KeyContainer blocked''),
                 console_error ''Error: KeyContainer not unlocked'' w))
      else (\<lambda>w. let (privKHexEncrypted, w1) = db_get P (KCPREFIX P @ addressHex) w
                in (bindE (toBuffer P data) (\<lambda>message.
                    bindE (decrypt P (encryptionKey kc) (opt_val privKHexEncrypted)) (\<lambda>privKHex.
                    bindE (ecsign P (hashPersonalMessage P message) (hexToBytes privKHex)) (\<lambda>sig.
                    Inr (concatSignature P message (hashPersonalMessage P message)
                           (fst sig) (fst (snd sig)) (snd (snd sig)))))), w1)))"

definition deleteKey :: "prims \<Rightarrow> string \<Rightarrow> world \<Rightarrow> world" where
  "deleteKey P addressHex = db_delete P (KCPREFIX P @ addressHex)"

definition deleteAll :: "world \<Rightarrow> world" where
  "deleteAll = db_deleteAll"

section \<open>A small instance of the primitives\<close>

text \<open>
  Stand-ins for the imported primitives, small enough to compute with: a cipher that
  tags the plaintext with its key and refuses any other key, a serialiser for objects
  of strings with escaped quotes, and derivations that only keep the paths apart.
\<close>

definition toy_encrypt :: "string \<Rightarrow> string \<Rightarrow> string" where
  "toy_encrypt k m = k @ ''|'' @ m"

definition toy_decrypt :: "string \<Rightarrow> jsval \<Rightarrow> exn + string" where
  "toy_decrypt k v =
     (case v of
        JStr c \<Rightarrow>
          if prefix (k @ ''|'') c then Inr (drop (Suc (length k)) c)
          else Inl (Error ''Could not decrypt message'')
      | _ \<Rightarrow> Inl (Error ''Could not decrypt message''))"

fun json_esc :: "string \<Rightarrow> string" where
  "json_esc [] = []"
| "json_esc (c # cs) =
     (if c = CHR 0x22 \<or> c = CHR 0x5C then CHR 0x5C # c # json_esc cs else c # json_esc cs)"

definition toy_str :: "string \<Rightarrow> string" where
  "toy_str s = CHR 0x22 # json_esc s @ [CHR 0x22]"

fun toy_value :: "jsval \<Rightarrow> string" where
  "toy_value (JStr s) = toy_str s"
| "toy_value v = ''null''"

fun toy_members :: "(string \<times> jsval) list \<Rightarrow> string" where
  "toy_members [] = []"
| "toy_members [kv] = toy_str (fst kv) @ '':'' @ toy_value (snd kv)"
| "toy_members (kv # ps) = toy_str (fst kv) @ '':'' @ toy_value (snd kv) @ '','' @ toy_members ps"

fun toy_stringify :: "jsval \<Rightarrow> string" where
  "toy_stringify (JObj ps) = ''{'' @ toy_members ps @ ''}''"
| "toy_stringify v = toy_value v"

datatype tok = TStr string | TSym char

text \<open>The lexer: \<open>Some a\<close> inside a string, \<open>a\<close> its characters so far, last first.\<close>

fun lex :: "string option \<Rightarrow> string \<Rightarrow> tok list option" where
  "lex None [] = Some []"
| "lex (Some a) [] = None"
| "lex None (c # cs) =
     (if c = CHR 0x22 then lex (Some []) cs else map_option (Cons (TSym c)) (lex None cs))"
| "lex (Some a) (c # cs) =
     (if c = CHR 0x22 then map_option (Cons (TStr (rev a))) (lex None cs)
      else if c = CHR 0x5C
        then (case cs of [] \<Rightarrow> None | d # ds \<Rightarrow> lex (Some (d # a)) ds)
        else lex (Some (c # a)) cs)"

fun members :: "tok list \<Rightarrow> (string \<times> jsval) list option" where
  "members (TStr k # TSym c1 # TStr v # TSym c2 # ts) =
     (if c1 = CHR '':'' \<and> c2 = CHR ''}'' \<and> ts = [] then Some [(k, JStr v)]
      else if c1 = CHR '':'' \<and> c2 = CHR '','' then map_option (Cons (k, JStr v)) (members ts)
      else None)"
| "members ts = None"

definition toy_parse :: "string \<Rightarrow> exn + jsval" where
  "toy_parse s =
     (if s = ''null'' then Inr Null
      else (case lex None s of
              Some (TSym c # ts) \<Rightarrow>
                if c \<noteq> CHR ''{'' then Inl SyntaxError
                else if ts = [TSym (CHR ''}'')] then Inr (JObj [])
                else (case members ts of None \<Rightarrow> Inl SyntaxError | Some ps \<Rightarrow> Inr (JObj ps))
            | _ \<Rightarrow> Inl SyntaxError))"

definition toy_bytes :: "string \<Rightarrow> bytes" where
  "toy_bytes s = map (\<lambda>c. of_nat (of_char c)) s"

definition toy_fromMasterSeed :: "jsval \<Rightarrow> exn + hdnode" where
  "toy_fromMasterSeed v =
     (case v of
        JStr s \<Rightarrow> Inr \<lparr>privateKey = [of_nat (length s)], publicKey = [], chainCode = []\<rparr>
      | _ \<Rightarrow> Inl TypeError)"

definition toy_derive :: "hdnode \<Rightarrow> string \<Rightarrow> exn + hdnode" where
  "toy_derive n path =
     (if path = [] then Inl (Error ''invalid path'')
      else Inr \<lparr>privateKey = privateKey n @ toy_bytes (drop 13 path),
               publicKey = 2 # toy_bytes (drop 13 path),
               chainCode = []\<rparr>)"

definition toyP :: prims where
  "toyP =
     \<lparr>KCPREFIX = ''kc-'',
      DBPREFIX = ''db-'',
      IDRECOVERYPREFIX = ''idRecovery-'',
      passToKey = (\<lambda>passphrase salt. salt @ ''-'' @ passphrase),
      encrypt = toy_encrypt,
      decrypt = toy_decrypt,
      concatSignature = (\<lambda>message msgHash v r s. JObj [(''signature'', JStr (bytesToHex (r @ s)))]),
      validateMnemonic = (\<lambda>m. m \<noteq> []),
      entropyToMnemonic = (\<lambda>e. Inr (''seed '' @ bytesToHex e)),
      fromMasterSeed = toy_fromMasterSeed,
      derive = toy_derive,
      privateToAddress = (\<lambda>k. Inr (rev k)),
      toBuffer = (\<lambda>v. case v of JStr s \<Rightarrow> Inr (toy_bytes s) | _ \<Rightarrow> Inl TypeError),
      hashPersonalMessage = (\<lambda>m. [of_nat (length m)]),
      ecsign = (\<lambda>h k. Inr (27, h, k)),
      JSON_stringify = toy_stringify,
      JSON_parse = toy_parse\<rparr>"

text \<open>An empty \<^verbatim>\<open>localStorage\<close> with room for \<open>q\<close> characters, at time 0.\<close>

definition fresh_world :: "nat \<Rightarrow> world" where
  "fresh_world q =
     \<lparr>items = [], quota = q, trace = [], console = [], clock = 0, timers = [], next_timer = 0\<rparr>"

definition unlocked :: "string \<Rightarrow> container" where
  "unlocked key = \<lparr>encryptionKey = key, timer = Some 0\<rparr>"

section \<open>Notions used in the statements\<close>

text \<open>
  What the statements ask of the imported primitives: decrypting under the key what
  was encrypted under it gives the plaintext back, and parsing the serialised key-seed
  record gives the record back.
\<close>

definition crypto_ok :: "prims \<Rightarrow> string \<Rightarrow> bool" where
  "crypto_ok P key = (\<forall>m. decrypt P key (JStr (encrypt P key m)) = Inr m)"

definition record_ok :: "prims \<Rightarrow> bool" where
  "record_ok P =
     (\<forall>a b. JSON_parse P (JSON_stringify P
                (JObj [(''keySeedEncrypted'', JStr a), (''pathKeySeedEncrypted'', JStr b)]))
            = Inr (JObj [(''keySeedEncrypted'', JStr a), (''pathKeySeedEncrypted'', JStr b)]))"

text \<open>The \<^verbatim>\<open>localStorage\<close> key of the key-seed record, and the entries listed under it.\<close>

definition keySeed_key :: "prims \<Rightarrow> string" where
  "keySeed_key P = DBPREFIX P @ KCPREFIX P @ ''keySeed''"

definition keySeed_entries :: "prims \<Rightarrow> world \<Rightarrow> (string \<times> string) list" where
  "keySeed_entries P w = filter (\<lambda>kv. prefix (keySeed_key P) (fst kv)) (items w)"

text \<open>\<open>n\<close> calls of \<^verbatim>\<open>createKeys\<close> in a row, each returning its keys.\<close>

fun createKeys_n :: "prims \<Rightarrow> container \<Rightarrow> nat \<Rightarrow> world \<Rightarrow> world option" where
  "createKeys_n P kc 0 w = Some w"
| "createKeys_n P kc (Suc n) w =
     (case createKeys P kc w of
        (Inr (Some keys), w1) \<Rightarrow> createKeys_n P kc n w1
      | _ \<Rightarrow> None)"

text \<open>A store holding a key-seed record alone, made under the key \<open>salt-pw\<close>.\<close>

definition store_with_counter :: "bytes \<Rightarrow> world" where
  "store_with_counter bs =
     (fresh_world 1000)\<lparr>items :=
        [(''db-kc-keySeed'', keySeed_record toyP ''salt-pw'' ''seed 03'' bs)]\<rparr>"

text \<open>
  The spec's words for \<^verbatim>\<open>createKeys\<close>, as functions to compare the code with. The key
  at the coordinates (key seed, profile, key index): its address, its public key, both in
  hexadecimal, and its encrypted private key. The key seed a master seed bootstraps.
  The key under which \<^verbatim>\<open>getKeySeed\<close> reads the record. And one creation of a profile
  at counter \<open>c\<close>: the identifiers returned, and the \<^verbatim>\<open>localStorage\<close> calls that
  persist the three keys (the first also under its public key) and then raise the
  counter once.
\<close>

definition spec_key_at ::
  "prims \<Rightarrow> string \<Rightarrow> string \<Rightarrow> nat \<Rightarrow> nat \<Rightarrow> exn + (string \<times> string \<times> string)" where
  "spec_key_at P key keySeed profile i =
     bindE (fromMasterSeed P (JStr keySeed)) (\<lambda>root.
     bindE (derive P root (keyPath profile i)) (\<lambda>node.
     bindE (privateToAddress P (privateKey node)) (\<lambda>address.
     Inr (bytesToHex address, bytesToHex (publicKey node),
          encrypt P key (bytesToHex (privateKey node))))))"

definition bootstrap_seed :: "prims \<Rightarrow> string option \<Rightarrow> exn + string" where
  "bootstrap_seed P masterSeed =
     bindE (fromMasterSeed P (undef_val masterSeed)) (\<lambda>root.
     bindE (derive P root pathRoot) (\<lambda>nodeId.
     entropyToMnemonic P (privateKey nodeId)))"

definition keySeed_read_key :: "prims \<Rightarrow> world \<Rightarrow> string" where
  "keySeed_read_key P w =
     DBPREFIX P @ array_toString (db_listKeys P (KCPREFIX P @ ''keySeed'') w)"

definition store_with_masterSeed :: world where
  "store_with_masterSeed =
     (fresh_world 1000)\<lparr>items := [(''db-kc-masterSeed'', ''salt-pw|abc'')]\<rparr>"

definition creation_calls ::
  "prims \<Rightarrow> string \<Rightarrow> string \<Rightarrow> nat \<Rightarrow> string \<Rightarrow> exn + (string list \<times> ls_event list)" where
  "creation_calls P key keySeed c readKey =
     bindE (spec_key_at P key keySeed c 0) (\<lambda>k0.
     bindE (spec_key_at P key keySeed c 1) (\<lambda>k1.
     bindE (spec_key_at P key keySeed c 2) (\<lambda>k2.
     bindE (writeUInt32BE (c + 1)) (\<lambda>bs.
     Inr ([fst k0, fst (snd k0), fst k1, fst k2],
          [SetItem (DBPREFIX P @ KCPREFIX P @ fst k0) (snd (snd k0)),
           SetItem (DBPREFIX P @ KCPREFIX P @ fst (snd k0)) (snd (snd k0)),
           SetItem (DBPREFIX P @ KCPREFIX P @ fst k1) (snd (snd k1)),
           SetItem (DBPREFIX P @ KCPREFIX P @ fst k2) (snd (snd k2)),
           GetItem readKey,
           SetItem (keySeed_key P) (keySeed_record P key keySeed bs)])))))"

text \<open>
  What \<^verbatim>\<open>localStorage\<close> with quota \<open>q\<close> holds after a run of calls, none of which
  passes the quota: a write replaces the value of a key or appends a new key, a read
  changes nothing.
\<close>

fun stored_after :: "nat \<Rightarrow> ls_event list \<Rightarrow> (string \<times> string) list \<Rightarrow> (string \<times> string) list option" where
  "stored_after q [] its = Some its"
| "stored_after q (GetItem k # evs) its = stored_after q evs its"
| "stored_after q (SetItem k v # evs) its =
     (if q < ls_size (AList.update k v its) then None
      else stored_after q evs (AList.update k v its))"
| "stored_after q (RemoveItem k # evs) its = stored_after q evs (AList.delete k its)"
| "stored_after q (Clear # evs) its = stored_after q evs []"

text \<open>
  The store with counter 0 and room for the record and 70 characters more: two key
  entries of 30 characters fit, a third does not.
\<close>

definition small_store :: world where
  "small_store = (store_with_counter [0, 0, 0, 0])\<lparr>quota := 163\<rparr>"

text \<open>A store holding one private key, encrypted under the key \<open>salt-pw\<close>.\<close>

definition store_with_key :: world where
  "store_with_key = (fresh_world 1000)\<lparr>items := [(''db-kc-3031'', ''salt-pw|3130'')]\<rparr>"

text \<open>
  The object \<^verbatim>\<open>export\<close> serialises, the string a string value stands for, a
  store with one entry inside the database namespace and one outside it, and a store
  with nothing in the namespace.
\<close>

definition exported_object :: "prims \<Rightarrow> world \<Rightarrow> (string \<times> jsval) list" where
  "exported_object P w = fst (export_loop P (map fst (items w)) [] w)"

definition store_two :: world where
  "store_two =
     (fresh_world 1000)\<lparr>items := [(''db-kc-3031'', ''salt-pw|3130''), (''theme'', ''dark'')]\<rparr>"

fun str_of :: "jsval \<Rightarrow> string" where
  "str_of (JStr s) = s"
| "str_of v = []"

definition store_other :: world where
  "store_other = (fresh_world 1000)\<lparr>items := [(''theme'', ''light'')]\<rparr>"

section \<open>Lemmas\<close>

subsection \<open>Hexadecimal and big-endian coding\<close>

lemma index_of_nth:
  "distinct ds \<Longrightarrow> n < length ds \<Longrightarrow> index_of (ds ! n) ds i = Some (i + n)"
proof (induction ds arbitrary: n i)
  case Nil
  then show ?case by simp
next
  case (Cons d ds)
  show ?case
  proof (cases n)
    case 0
    then show ?thesis by simp
  next
    case (Suc m)
    with Cons.prems have "ds ! m \<noteq> d" by auto
    with Suc Cons show ?thesis by simp
  qed
qed

lemma hex_val_hex_digit: "n < 16 \<Longrightarrow> hex_val (hex_digit n) = Some n"
  using index_of_nth [of "''0123456789abcdef''" n 0]
  by (simp add: hex_val_def hex_digit_def)

lemma hexToBytes_bytesToHex: "hexToBytes (bytesToHex bs) = bs"
proof (induction bs)
  case Nil
  then show ?case by (simp add: bytesToHex_def)
next
  case (Cons b bs)
  have lt: "unat b < 256" using unsigned_less [of b] by simp
  then have d: "unat b div 16 < 16" by simp
  have m: "unat b mod 16 < 16" by simp
  have "(word_of_nat (unat b div 16 * 16 + unat b mod 16) :: 8 word) = b"
    by simp
  with Cons d m show ?case
    by (simp add: bytesToHex_def hex_val_hex_digit)
qed

lemma hex_digit_not_k: "n < 16 \<Longrightarrow> hex_digit n \<noteq> CHR ''k''"
proof -
  assume "n < 16"
  then have "hex_digit n \<in> set ''0123456789abcdef''"
    by (simp add: hex_digit_def del: set_simps)
  then show ?thesis by auto
qed

lemma bytesToHex_not_keySeed: "\<not> prefix ''keySeed'' (bytesToHex bs)"
proof (cases bs)
  case Nil
  then show ?thesis by (simp add: bytesToHex_def)
next
  case (Cons b bs')
  have "unat b < 256" using unsigned_less [of b] by simp
  then have "unat b div 16 < 16" by simp
  then have "hex_digit (unat b div 16) \<noteq> CHR ''k''" by (rule hex_digit_not_k)
  with Cons show ?thesis by (simp add: bytesToHex_def)
qed

lemma be32_bytes:
  "v div 16777216 * 16777216 + v div 65536 mod 256 * 65536
          + v div 256 mod 256 * 256 + v mod 256 = (v::nat)"
proof -
  have a: "v div 65536 = (v div 256) div 256" by (simp add: div_mult2_eq)
  have b: "v div 16777216 = ((v div 256) div 256) div 256" by (simp add: div_mult2_eq)
  define x1 where "x1 = v div 256"
  define x2 where "x2 = x1 div 256"
  have "v = x1 * 256 + v mod 256" by (simp add: x1_def)
  moreover have "x1 = x2 * 256 + x1 mod 256" by (simp add: x2_def)
  moreover have "x2 = x2 div 256 * 256 + x2 mod 256" by simp
  ultimately show ?thesis
    unfolding a b x1_def [symmetric] x2_def [symmetric] by algebra
qed

lemma writeUInt32BE_read:
  assumes "writeUInt32BE v = Inr bs"
  shows "readUInt32BE bs = Inr v"
proof -
  from assms have le: "v \<le> 4294967295"
    by (simp add: writeUInt32BE_def split: if_splits)
  then have top: "v div 16777216 mod 256 = v div 16777216"
    by simp
  from assms le have bs: "bs = [of_nat (v div 16777216), of_nat (v div 65536), of_nat (v div 256), of_nat v]"
    by (simp add: writeUInt32BE_def)
  show ?thesis
    unfolding bs readUInt32BE_def
    by (simp add: unat_of_nat top be32_bytes)
qed

lemma readUInt32BE_bound:
  assumes "readUInt32BE bs = Inr v"
  shows "v \<le> 4294967295"
proof -
  from assms obtain b0 b1 b2 b3 r where
    v: "v = unat b0 * 16777216 + unat b1 * 65536 + unat b2 * 256 + unat b3"
    and "bs = b0 # b1 # b2 # b3 # (r :: 8 word list)"
    by (auto simp: readUInt32BE_def split: list.splits)
  have "unat b0 < 256" "unat b1 < 256" "unat b2 < 256" "unat b3 < 256"
    using unsigned_less [of b0] unsigned_less [of b1] unsigned_less [of b2] unsigned_less [of b3]
    by simp_all
  with v show ?thesis by linarith
qed

subsection \<open>The entries under the key-seed label\<close>

lemma filter_update_other:
  "\<not> Q k \<Longrightarrow> filter (\<lambda>kv. Q (fst kv)) (AList.update k v its) = filter (\<lambda>kv. Q (fst kv)) its"
  by (induction its) auto

lemma filter_update_same:
  "Q k \<Longrightarrow> filter (\<lambda>kv. Q (fst kv)) (AList.update k v its)
           = AList.update k v (filter (\<lambda>kv. Q (fst kv)) its)"
  by (induction its) auto

lemma map_of_filter_key:
  "Q k \<Longrightarrow> map_of (filter (\<lambda>kv. Q (fst kv)) its) k = map_of its k"
  by (induction its) auto

lemma listKeys_entries:
  "db_listKeys P (KCPREFIX P @ ''keySeed'') w
     = map (\<lambda>kv. drop (length (DBPREFIX P)) (fst kv)) (keySeed_entries P w)"
  by (simp add: db_listKeys_def keySeed_entries_def keySeed_key_def filter_map comp_def)

lemma array_toString_prefix: "prefix p n \<Longrightarrow> prefix p (array_toString (n # ns))"
  by (cases ns) (auto simp: prefix_def)

lemma joined_key_prefix:
  assumes "keySeed_entries P w \<noteq> []"
  shows "prefix (keySeed_key P)
           (DBPREFIX P @ array_toString (db_listKeys P (KCPREFIX P @ ''keySeed'') w))"
proof -
  from assms obtain kv rest where e: "keySeed_entries P w = kv # rest"
    by (cases "keySeed_entries P w") auto
  then have "kv \<in> set (keySeed_entries P w)" by simp
  then have "prefix (keySeed_key P) (fst kv)" by (simp add: keySeed_entries_def)
  then obtain z where k: "fst kv = DBPREFIX P @ KCPREFIX P @ ''keySeed'' @ z"
    by (auto simp: prefix_def keySeed_key_def)
  have "prefix (KCPREFIX P @ ''keySeed'') (drop (length (DBPREFIX P)) (fst kv))"
    by (simp add: k)
  then have "prefix (KCPREFIX P @ ''keySeed'')
      (array_toString (drop (length (DBPREFIX P)) (fst kv)
         # map (\<lambda>kv. drop (length (DBPREFIX P)) (fst kv)) rest))"
    by (rule array_toString_prefix)
  then show ?thesis
    by (simp add: listKeys_entries e keySeed_key_def)
qed

lemma getKeySeed_cong:
  assumes "keySeed_entries P w = keySeed_entries P w'"
  shows "fst (getKeySeed P kc w) = fst (getKeySeed P kc w')"
proof (cases "keySeed_entries P w = []")
  case True
  with assms show ?thesis by (simp add: getKeySeed_def listKeys_entries)
next
  case False
  let ?k = "DBPREFIX P @ array_toString (db_listKeys P (KCPREFIX P @ ''keySeed'') w)"
  have l: "db_listKeys P (KCPREFIX P @ ''keySeed'') w' = db_listKeys P (KCPREFIX P @ ''keySeed'') w"
    by (simp add: listKeys_entries assms)
  have p: "prefix (keySeed_key P) ?k" using False by (rule joined_key_prefix)
  have "map_of (items w) ?k = map_of (keySeed_entries P w) ?k"
    unfolding keySeed_entries_def using p by (simp add: map_of_filter_key)
  moreover have "map_of (items w') ?k = map_of (keySeed_entries P w') ?k"
    unfolding keySeed_entries_def using p by (simp add: map_of_filter_key)
  ultimately have "map_of (items w) ?k = map_of (items w') ?k" by (simp add: assms)
  then show ?thesis
    by (simp add: getKeySeed_def l db_get_def getItem_def Let_def)
qed

lemma getKeySeed_store [simp]:
  "items (snd (getKeySeed P kc w)) = items w"
  "quota (snd (getKeySeed P kc w)) = quota w"
  by (simp_all add: getKeySeed_def db_get_def getItem_def Let_def)

lemma getKeySeed_entries [simp]:
  "keySeed_entries P (snd (getKeySeed P kc w)) = keySeed_entries P w"
  by (simp add: keySeed_entries_def)

lemma getKeySeed_locked: "\<not> isUnlock kc \<Longrightarrow> getKeySeed P kc w = (Inr None, w)"
  by (simp add: getKeySeed_def)

lemma getKeySeed_Some_unlocked:
  "fst (getKeySeed P kc w) = Inr (Some x) \<Longrightarrow> isUnlock kc"
  by (cases "isUnlock kc") (simp_all add: getKeySeed_locked)

lemma label_entries:
  assumes "db_listKeys P (KCPREFIX P @ ''keySeed'') w = [KCPREFIX P @ ''keySeed'']"
  shows "\<exists>r. keySeed_entries P w = [(keySeed_key P, r)]"
proof -
  from assms obtain k r where e: "keySeed_entries P w = [(k, r)]"
    and d: "drop (length (DBPREFIX P)) k = KCPREFIX P @ ''keySeed''"
    by (auto simp: listKeys_entries)
  have "(k, r) \<in> set (keySeed_entries P w)" by (simp add: e)
  then have "prefix (keySeed_key P) k" by (simp add: keySeed_entries_def)
  then obtain z where "k = DBPREFIX P @ KCPREFIX P @ ''keySeed'' @ z"
    by (auto simp: prefix_def keySeed_key_def)
  with d have "k = keySeed_key P" by (simp add: keySeed_key_def)
  with e show ?thesis by simp
qed

lemma entries_label:
  "keySeed_entries P w = [(keySeed_key P, r)]
   \<Longrightarrow> db_listKeys P (KCPREFIX P @ ''keySeed'') w = [KCPREFIX P @ ''keySeed'']"
  by (simp add: listKeys_entries keySeed_key_def)

lemma getKeySeed_trace:
  assumes "keySeed_entries P w = [(keySeed_key P, r)]" and "isUnlock kc"
  shows "trace (snd (getKeySeed P kc w)) = trace w @ [GetItem (keySeed_key P)]"
  using assms
  by (simp add: getKeySeed_def entries_label db_get_def getItem_def keySeed_key_def)

lemma getKeySeed_readback:
  assumes "isUnlock kc" and "crypto_ok P (encryptionKey kc)" and "record_ok P"
    and "keySeed_entries P w = [(keySeed_key P, keySeed_record P (encryptionKey kc) ks bs)]"
    and "readUInt32BE bs = Inr c"
  shows "fst (getKeySeed P kc w) = Inr (Some (ks, c))"
proof -
  have l: "db_listKeys P (KCPREFIX P @ ''keySeed'') w = [KCPREFIX P @ ''keySeed'']"
    using assms(4) by (rule entries_label)
  have "map_of (items w) (keySeed_key P) = map_of (keySeed_entries P w) (keySeed_key P)"
    unfolding keySeed_entries_def by (simp add: map_of_filter_key)
  then have m: "map_of (items w) (DBPREFIX P @ KCPREFIX P @ ''keySeed'')
      = Some (keySeed_record P (encryptionKey kc) ks bs)"
    by (simp add: assms(4)) (simp add: keySeed_key_def)
  from assms(2) have d: "\<And>m. decrypt P (encryptionKey kc) (JStr (encrypt P (encryptionKey kc) m)) = Inr m"
    by (simp add: crypto_ok_def)
  from assms(3) have j: "\<And>a b. JSON_parse P (JSON_stringify P
                (JObj [(''keySeedEncrypted'', JStr a), (''pathKeySeedEncrypted'', JStr b)]))
            = Inr (JObj [(''keySeedEncrypted'', JStr a), (''pathKeySeedEncrypted'', JStr b)])"
    by (simp add: record_ok_def)
  show ?thesis
    using assms(1,5)
    by (simp add: getKeySeed_def l db_get_def getItem_def m JSON_parse_item_def keySeed_record_def
        j d bindE_def hexToBytes_bytesToHex)
qed

subsection \<open>Sequencing and what a write leaves alone\<close>

lemma bindS_Inr: "m w = (Inr x, w1) \<Longrightarrow> bindS m f w = f x w1"
  by (simp add: bindS_def)

lemma frame_bindS:
  assumes "\<And>w. F (snd (m w)) = F w" and "\<And>x w. F (snd (f x w)) = F w"
  shows "F (snd (bindS m f w)) = F w"
proof (cases "m w")
  case (Pair r w1)
  then have "F w1 = F w" using assms(1) [of w] by simp
  with Pair assms(2) show ?thesis
    by (cases r) (simp_all add: bindS_def)
qed

lemma frame_basic [simp]:
  "snd (ret x w) = w" "snd (throw e w) = w" "snd (liftE r w) = w"
  by (simp_all add: ret_def throw_def liftE_def)

lemma setItem_snd [simp]:
  "trace (snd (setItem k v w)) = trace w @ [SetItem k v]"
  "quota (snd (setItem k v w)) = quota w"
  "items (snd (setItem k v w))
     = (if quota w < ls_size (AList.update k v (items w)) then items w
        else AList.update k v (items w))"
  by (simp_all add: setItem_def Let_def)

lemma setItem_fst:
  "fst (setItem k v w)
     = (if quota w < ls_size (AList.update k v (items w)) then Inl QuotaExceededError else Inr ())"
  by (simp add: setItem_def Let_def)

lemma setItem_entries_other:
  "\<not> prefix (keySeed_key P) k \<Longrightarrow> keySeed_entries P (snd (setItem k v w)) = keySeed_entries P w"
  by (simp add: keySeed_entries_def filter_update_other)

lemma db_insert_hex_entries [simp]:
  "keySeed_entries P (snd (db_insert P (KCPREFIX P @ bytesToHex x) v w)) = keySeed_entries P w"
  by (simp add: db_insert_def setItem_entries_other keySeed_key_def bytesToHex_not_keySeed)

lemma db_insert_quota [simp]: "quota (snd (db_insert P k v w)) = quota w"
  by (simp add: db_insert_def)

lemma derive_keys_entries [simp]:
  "keySeed_entries P (snd (derive_keys P kc root pp ixs keys w)) = keySeed_entries P w"
proof (induction ixs arbitrary: keys w)
  case Nil
  then show ?case by simp
next
  case (Cons i ixs)
  show ?case
    unfolding derive_keys.simps
    by (intro frame_bindS) (simp_all add: Cons.IH frame_bindS)
qed

lemma generateKeysFromKeyPath_entries [simp]:
  "keySeed_entries P (snd (generateKeysFromKeyPath P kc m pp n w)) = keySeed_entries P w"
proof (cases "\<not> isUnlock kc \<or> \<not> validateMnemonic P m")
  case True
  then show ?thesis
    by (auto simp: generateKeysFromKeyPath_def keySeed_entries_def console_error_def)
next
  case False
  then show ?thesis
    unfolding generateKeysFromKeyPath_def
    by (simp only: if_False) (intro frame_bindS; simp)
qed

lemma increaseKeyPath_unfold:
  assumes "fst (getKeySeed P kc w) = Inr (Some (ks, c))"
  shows "increaseKeyPath P kc w =
     (case writeUInt32BE (c + 1) of
        Inl e \<Rightarrow> (Inl e, snd (getKeySeed P kc w))
      | Inr bs \<Rightarrow>
          (case setItem (keySeed_key P) (keySeed_record P (encryptionKey kc) ks bs)
                  (snd (getKeySeed P kc w)) of
             (Inl e, w2) \<Rightarrow> (Inl e, w2)
           | (Inr u, w2) \<Rightarrow> (Inr True, w2)))"
proof -
  have u: "isUnlock kc" using assms by (rule getKeySeed_Some_unlocked)
  have g: "getKeySeed P kc w = (Inr (Some (ks, c)), snd (getKeySeed P kc w))"
    using assms by (simp add: prod_eq_iff)
  have step: "increaseKeyPath P kc w =
      bindS (liftE (writeUInt32BE (c + 1))) (\<lambda>pathKeyDb.
        bindS (db_insert P (KCPREFIX P @ ''keySeed'')
                 (keySeed_record P (encryptionKey kc) ks pathKeyDb))
          (\<lambda>u. ret True)) (snd (getKeySeed P kc w))"
    unfolding increaseKeyPath_def using u
    by (simp add: bindS_Inr [of "getKeySeed P kc" w, OF g])
  show ?thesis
  proof (cases "writeUInt32BE (c + 1)")
    case (Inl e)
    then show ?thesis by (simp add: step bindS_def liftE_def)
  next
    case (Inr bs)
    then show ?thesis
      by (simp add: step bindS_def liftE_def ret_def db_insert_def keySeed_key_def
          split: prod.splits sum.splits)
  qed
qed

lemma increaseKeyPath_step:
  assumes e: "keySeed_entries P w = [(keySeed_key P, r)]"
    and g: "fst (getKeySeed P kc w) = Inr (Some (ks, c))"
    and ok: "crypto_ok P (encryptionKey kc)" "record_ok P"
    and s: "fst (increaseKeyPath P kc w) = Inr b"
  shows "b \<and> c < 4294967295
     \<and> (\<exists>bs. writeUInt32BE (c + 1) = Inr bs
          \<and> keySeed_entries P (snd (increaseKeyPath P kc w))
              = [(keySeed_key P, keySeed_record P (encryptionKey kc) ks bs)]
          \<and> trace (snd (increaseKeyPath P kc w))
              = trace w @ [GetItem (keySeed_key P),
                           SetItem (keySeed_key P) (keySeed_record P (encryptionKey kc) ks bs)])
     \<and> fst (getKeySeed P kc (snd (increaseKeyPath P kc w))) = Inr (Some (ks, c + 1))"
proof -
  have u: "isUnlock kc" using g by (rule getKeySeed_Some_unlocked)
  let ?w1 = "snd (getKeySeed P kc w)"
  note unf = increaseKeyPath_unfold [OF g]
  from s unf obtain bs where bs: "writeUInt32BE (c + 1) = Inr bs"
    by (cases "writeUInt32BE (c + 1)") auto
  then have c: "c < 4294967295" by (simp add: writeUInt32BE_def split: if_splits)
  let ?R = "keySeed_record P (encryptionKey kc) ks bs"
  let ?s = "setItem (keySeed_key P) ?R ?w1"
  have ikp: "increaseKeyPath P kc w =
      (case ?s of (Inl e, w2) \<Rightarrow> (Inl e, w2) | (Inr u, w2) \<Rightarrow> (Inr True, w2))"
    using unf bs by simp
  from s ikp have f: "fst ?s = Inr ()" and b: "b"
    by (cases ?s; cases "fst ?s"; auto)+
  then have q: "\<not> quota ?w1 < ls_size (AList.update (keySeed_key P) ?R (items ?w1))"
    by (simp add: setItem_fst split: if_splits)
  have w': "snd (increaseKeyPath P kc w) = snd ?s"
    using ikp by (cases ?s; cases "fst ?s"; auto)
  have "keySeed_entries P (snd ?s) = AList.update (keySeed_key P) ?R (keySeed_entries P ?w1)"
    using q by (simp add: keySeed_entries_def filter_update_same)
  then have ent: "keySeed_entries P (snd ?s) = [(keySeed_key P, ?R)]"
    by (simp add: e)
  have tr: "trace (snd ?s) = trace w @ [GetItem (keySeed_key P), SetItem (keySeed_key P) ?R]"
    by (simp add: getKeySeed_trace [OF e u])
  have r: "readUInt32BE bs = Inr (c + 1)" using bs by (rule writeUInt32BE_read)
  have "fst (getKeySeed P kc (snd ?s)) = Inr (Some (ks, c + 1))"
    using u ok ent r by (rule getKeySeed_readback)
  with b c bs ent tr w' show ?thesis by auto
qed

lemma createKeys_unfold_existing:
  assumes g: "fst (getKeySeed P kc w) = Inr (Some (ks, c))"
  shows "createKeys P kc w =
     bindS (generateKeysFromKeyPath P kc ks c 3) (\<lambda>r.
       case r of
         None \<Rightarrow> throw TypeError
       | Some keys \<Rightarrow> bindS (increaseKeyPath P kc) (\<lambda>b. ret (Some keys)))
       (snd (getKeySeed P kc w))"
proof -
  have u: "isUnlock kc" using g by (rule getKeySeed_Some_unlocked)
  have g': "getKeySeed P kc w = (Inr (Some (ks, c)), snd (getKeySeed P kc w))"
    using g by (simp add: prod_eq_iff)
  show ?thesis
    unfolding createKeys_def using u
    by (simp add: bindS_Inr [of "getKeySeed P kc" w, OF g'])
       (simp add: bindS_def ret_def)
qed

lemma createKeys_success:
  assumes g: "fst (getKeySeed P kc w) = Inr (Some (ks, c))"
    and s: "createKeys P kc w = (Inr (Some keys), w')"
  shows "fst (generateKeysFromKeyPath P kc ks c 3 (snd (getKeySeed P kc w))) = Inr (Some keys)
     \<and> (\<exists>b. fst (increaseKeyPath P kc
                (snd (generateKeysFromKeyPath P kc ks c 3 (snd (getKeySeed P kc w))))) = Inr b)
     \<and> w' = snd (increaseKeyPath P kc
                (snd (generateKeysFromKeyPath P kc ks c 3 (snd (getKeySeed P kc w)))))"
  using s unfolding createKeys_unfold_existing [OF g]
  by (auto simp: bindS_def throw_def ret_def split: prod.splits sum.splits option.splits)

lemma createKeys_step:
  assumes e: "keySeed_entries P w = [(keySeed_key P, r)]"
    and g: "fst (getKeySeed P kc w) = Inr (Some (ks, c))"
    and ok: "crypto_ok P (encryptionKey kc)" "record_ok P"
    and s: "createKeys P kc w = (Inr (Some keys), w')"
  shows "(\<exists>r'. keySeed_entries P w' = [(keySeed_key P, r')])
     \<and> fst (getKeySeed P kc w') = Inr (Some (ks, c + 1))"
proof -
  let ?w2 = "snd (generateKeysFromKeyPath P kc ks c 3 (snd (getKeySeed P kc w)))"
  from createKeys_success [OF g s] obtain b where
    b: "fst (increaseKeyPath P kc ?w2) = Inr b" and w': "w' = snd (increaseKeyPath P kc ?w2)"
    by blast
  have e2: "keySeed_entries P ?w2 = [(keySeed_key P, r)]" by (simp add: e)
  have "keySeed_entries P ?w2 = keySeed_entries P w" by simp
  then have "fst (getKeySeed P kc ?w2) = fst (getKeySeed P kc w)" by (rule getKeySeed_cong)
  then have g2: "fst (getKeySeed P kc ?w2) = Inr (Some (ks, c))" by (simp add: g)
  from increaseKeyPath_step [OF e2 g2 ok b] w' show ?thesis by auto
qed

lemma createKeys_n_counter:
  assumes "keySeed_entries P w = [(keySeed_key P, r)]"
    and "fst (getKeySeed P kc w) = Inr (Some (ks, c))"
    and "crypto_ok P (encryptionKey kc)" and "record_ok P"
    and "createKeys_n P kc n w = Some w'"
  shows "fst (getKeySeed P kc w') = Inr (Some (ks, c + n))"
  using assms
proof (induction n arbitrary: w r c)
  case 0
  then show ?case by simp
next
  case (Suc n)
  from Suc.prems(5) obtain keys w1 where
    s: "createKeys P kc w = (Inr (Some keys), w1)" and n: "createKeys_n P kc n w1 = Some w'"
    by (auto split: prod.splits sum.splits option.splits)
  from createKeys_step [OF Suc.prems(1,2,3,4) s] obtain r' where
    e1: "keySeed_entries P w1 = [(keySeed_key P, r')]"
    and g1: "fst (getKeySeed P kc w1) = Inr (Some (ks, c + 1))"
    by blast
  from Suc.IH [OF e1 g1 Suc.prems(3,4) n] show ?case by simp
qed

subsection \<open>The small instance\<close>

lemma toy_crypto_ok: "crypto_ok toyP key"
  by (simp add: crypto_ok_def toyP_def toy_encrypt_def toy_decrypt_def)

lemma lex_string:
  "lex (Some a) (json_esc s @ CHR 0x22 # rest) = map_option (Cons (TStr (rev a @ s))) (lex None rest)"
  by (induction s arbitrary: a) auto

lemma lex_toy_str: "lex None (toy_str s @ rest) = map_option (Cons (TStr s)) (lex None rest)"
  using lex_string [of "[]" s rest] by (simp add: toy_str_def)

lemma toy_parse_record:
  "toy_parse (toy_stringify (JObj [(k1, JStr a), (k2, JStr b)]))
      = Inr (JObj [(k1, JStr a), (k2, JStr b)])"
  unfolding toy_parse_def
  by (simp add: lex_toy_str)

lemma toy_record_ok: "record_ok toyP"
  using toy_parse_record by (simp add: record_ok_def toyP_def del: toy_stringify.simps)

lemma readUInt32BE_four:
  "readUInt32BE [b0, b1, b2, b3] = Inr (unat b0 * 16777216 + unat b1 * 65536 + unat b2 * 256 + unat b3)"
  by (simp add: readUInt32BE_def)

lemma toy_getKeySeed:
  "fst (getKeySeed toyP (unlocked ''salt-pw'') (store_with_counter [b0, b1, b2, b3]))
   = Inr (Some (''seed 03'', unat b0 * 16777216 + unat b1 * 65536 + unat b2 * 256 + unat b3))"
  by (rule getKeySeed_readback [where bs = "[b0, b1, b2, b3]", OF _ toy_crypto_ok toy_record_ok])
     (simp_all add: isUnlock_def unlocked_def keySeed_entries_def keySeed_key_def toyP_def
        fresh_world_def readUInt32BE_four store_with_counter_def)

lemma toy_label:
  "db_listKeys toyP (KCPREFIX toyP @ ''keySeed'') (store_with_counter bs)
     = [KCPREFIX toyP @ ''keySeed'']"
  by (simp add: store_with_counter_def db_listKeys_def toyP_def fresh_world_def)

lemma upt_0_3: "[0..<3] = [0, 1, 2]"
  by (simp add: upt_rec numeral_3_eq_3)

lemmas toy_defs = toyP_def toy_fromMasterSeed_def toy_derive_def toy_bytes_def toy_encrypt_def
  toy_decrypt_def toy_str_def toy_parse_def

lemmas model_defs = isUnlock_def unlocked_def bindS_def bindE_def liftE_def ret_def throw_def
  db_insert_def db_get_def db_listKeys_def setItem_def getItem_def Let_def ls_size_def
  keySeed_record_def keySeed_key_def pathRoot_def keyPath_def bytesToHex_def hex_digit_def
  dec_digit_def writeUInt32BE_def readUInt32BE_def JSON_parse_item_def hex_val_def
  store_with_counter_def fresh_world_def console_error_def

lemma toy_createKeys:
  "createKeys toyP (unlocked ''salt-pw'') (store_with_counter [0, 0, 0, 0])
   = (Inr (Some [''302f3007'', ''02302f30'', ''312f3007'', ''322f3007'']),
      \<lparr>items =
         [(''db-kc-keySeed'', keySeed_record toyP ''salt-pw'' ''seed 03'' [0, 0, 0, 1]),
          (''db-kc-302f3007'', ''salt-pw|07302f30''),
          (''db-kc-02302f30'', ''salt-pw|07302f30''),
          (''db-kc-312f3007'', ''salt-pw|07302f31''),
          (''db-kc-322f3007'', ''salt-pw|07302f32'')],
       quota = 1000,
       trace =
         [GetItem ''db-kc-keySeed'',
          SetItem ''db-kc-302f3007'' ''salt-pw|07302f30'',
          SetItem ''db-kc-02302f30'' ''salt-pw|07302f30'',
          SetItem ''db-kc-312f3007'' ''salt-pw|07302f31'',
          SetItem ''db-kc-322f3007'' ''salt-pw|07302f32'',
          GetItem ''db-kc-keySeed'',
          SetItem ''db-kc-keySeed'' (keySeed_record toyP ''salt-pw'' ''seed 03'' [0, 0, 0, 1])],
       console = [], clock = 0, timers = [], next_timer = 0\<rparr>)"
  by (simp add: createKeys_def getKeySeed_def generateKeysFromKeyPath_def increaseKeyPath_def
      upt_0_3 toy_defs model_defs)

lemma toy_generateKeySeed:
  "generateKeySeed toyP (unlocked ''salt-pw'') (JStr ''abc'') (store_with_counter bs)
   = (Inr True,
      (store_with_counter [0, 0, 0, 0])
        \<lparr>trace := [SetItem ''db-kc-keySeed''
                     (keySeed_record toyP ''salt-pw'' ''seed 03'' [0, 0, 0, 0])]\<rparr>)"
  by (simp add: generateKeySeed_def toy_defs model_defs)

subsection \<open>The calls of one key creation\<close>

lemma bindS_eq:
  "bindS m f w = (case fst (m w) of Inl e \<Rightarrow> (Inl e, snd (m w)) | Inr x \<Rightarrow> f x (snd (m w)))"
  by (simp add: bindS_def split: prod.splits sum.splits)

lemma bindS_liftE [simp]:
  "bindS (liftE r) f w = (case r of Inl e \<Rightarrow> (Inl e, w) | Inr x \<Rightarrow> f x w)"
  by (simp add: bindS_def liftE_def split: sum.splits)

lemma db_insert_trace [simp]:
  "trace (snd (db_insert P k v w)) = trace w @ [SetItem (DBPREFIX P @ k) v]"
  by (simp add: db_insert_def)

lemma bindS_ret:
  "bindS m (\<lambda>x. ret (g x)) w
     = (case fst (m w) of Inl e \<Rightarrow> Inl e | Inr x \<Rightarrow> Inr (g x), snd (m w))"
  by (simp add: bindS_def ret_def split: prod.splits sum.splits)

lemma getKeySeed_trace_read:
  assumes "fst (getKeySeed P kc w) = Inr (Some x)"
  shows "trace (snd (getKeySeed P kc w)) = trace w @ [GetItem (keySeed_read_key P w)]"
proof -
  have u: "isUnlock kc" using assms by (rule getKeySeed_Some_unlocked)
  have "db_listKeys P (KCPREFIX P @ ''keySeed'') w \<noteq> []"
    using assms u by (auto simp: getKeySeed_def)
  with u show ?thesis
    by (simp add: getKeySeed_def keySeed_read_key_def db_get_def getItem_def Let_def)
qed

lemma keySeed_read_key_cong:
  "keySeed_entries P w = keySeed_entries P w' \<Longrightarrow> keySeed_read_key P w = keySeed_read_key P w'"
  by (simp add: keySeed_read_key_def listKeys_entries)

lemma getKeySeed_None:
  assumes "isUnlock kc" and "fst (getKeySeed P kc w) = Inr None"
  shows "keySeed_entries P w = []" and "getKeySeed P kc w = (Inr None, w)"
proof -
  have l: "db_listKeys P (KCPREFIX P @ ''keySeed'') w = []"
    using assms
    by (auto simp: getKeySeed_def Let_def bindE_def split: sum.splits prod.splits if_splits)
  then show "keySeed_entries P w = []" by (simp add: listKeys_entries)
  from l assms(1) show "getKeySeed P kc w = (Inr None, w)" by (simp add: getKeySeed_def)
qed

lemma getMasterSeed_store [simp]:
  "items (snd (getMasterSeed P kc pass w)) = items w"
  "quota (snd (getMasterSeed P kc pass w)) = quota w"
  by (simp_all add: getMasterSeed_def Let_def db_get_def getItem_def split: prod.splits sum.splits)

lemma createKeys_absent_unfold:
  assumes "isUnlock kc" and "getKeySeed P kc w = (Inr None, w)"
    and "getMasterSeed P kc None w = (Inr ms, wm)"
    and "generateKeySeed P kc (undef_val ms) wm = (Inr True, wg)"
    and "fst (getKeySeed P kc wg) = Inr (Some x)"
  shows "createKeys P kc w = createKeys P kc wg"
proof -
  obtain wg' where g: "getKeySeed P kc wg = (Inr (Some x), wg')"
    using assms(5) by (cases "getKeySeed P kc wg") auto
  show ?thesis
    using assms(1)
    by (simp add: createKeys_def bindS_def ret_def assms(2,3,4) g)
qed

lemma entries_read_key:
  "keySeed_entries P w = [(keySeed_key P, r)] \<Longrightarrow> keySeed_read_key P w = keySeed_key P"
  by (simp add: keySeed_read_key_def listKeys_entries keySeed_key_def)

lemma db_insert_fits:
  assumes "stored_after (quota w) (SetItem (DBPREFIX P @ k) v # evs) (items w) = Some r"
  shows "\<exists>w1. db_insert P k v w = (Inr (), w1)
     \<and> trace w1 = trace w @ [SetItem (DBPREFIX P @ k) v] \<and> quota w1 = quota w
     \<and> keySeed_entries P w1 = keySeed_entries P (snd (db_insert P k v w))
     \<and> stored_after (quota w1) evs (items w1) = Some r"
  using assms by (simp add: db_insert_def setItem_def Let_def split: if_splits)

lemma bindS_db_insert:
  "db_insert P k v w = (Inr u, w1) \<Longrightarrow> bindS (db_insert P k v) f w = f u w1"
  by (simp add: bindS_def)

lemma spec_key_at_Inr:
  assumes "fromMasterSeed P (JStr ks) = Inr root" and "spec_key_at P key ks c i = Inr k"
  shows "\<exists>node address. derive P root (keyPath c i) = Inr node
     \<and> privateToAddress P (privateKey node) = Inr address
     \<and> k = (bytesToHex address, bytesToHex (publicKey node),
            encrypt P key (bytesToHex (privateKey node)))"
  using assms by (auto simp: spec_key_at_def bindE_def split: sum.splits)

lemma derive_keys_run:
  assumes k: "spec_key_at P (encryptionKey kc) ks c i = Inr k"
    and root: "fromMasterSeed P (JStr ks) = Inr root"
    and fit: "stored_after (quota w)
        ((if i = 0
          then [SetItem (DBPREFIX P @ KCPREFIX P @ fst k) (snd (snd k)),
                SetItem (DBPREFIX P @ KCPREFIX P @ fst (snd k)) (snd (snd k))]
          else [SetItem (DBPREFIX P @ KCPREFIX P @ fst k) (snd (snd k))]) @ evs) (items w) = Some r"
  shows "\<exists>w1. derive_keys P kc root c (i # ixs) keys w
        = derive_keys P kc root c ixs
            (keys @ (if i = 0 then [fst k, fst (snd k)] else [fst k])) w1
     \<and> trace w1 = trace w @
         (if i = 0
          then [SetItem (DBPREFIX P @ KCPREFIX P @ fst k) (snd (snd k)),
                SetItem (DBPREFIX P @ KCPREFIX P @ fst (snd k)) (snd (snd k))]
          else [SetItem (DBPREFIX P @ KCPREFIX P @ fst k) (snd (snd k))])
     \<and> quota w1 = quota w
     \<and> keySeed_entries P w1 = keySeed_entries P w
     \<and> stored_after (quota w1) evs (items w1) = Some r"
proof -
  from spec_key_at_Inr [OF root k] obtain node address where
    n: "derive P root (keyPath c i) = Inr node"
    and a: "privateToAddress P (privateKey node) = Inr address"
    and kk: "k = (bytesToHex address, bytesToHex (publicKey node),
            encrypt P (encryptionKey kc) (bytesToHex (privateKey node)))"
    by blast
  let ?e = "encrypt P (encryptionKey kc) (bytesToHex (privateKey node))"
  show ?thesis
  proof (cases "i = 0")
    case False
    with fit kk have f1: "stored_after (quota w)
        (SetItem (DBPREFIX P @ KCPREFIX P @ bytesToHex address) ?e # evs) (items w) = Some r"
      by simp
    from db_insert_fits [OF f1] obtain w1 where
      i1: "db_insert P (KCPREFIX P @ bytesToHex address) ?e w = (Inr (), w1)"
      and p1: "trace w1 = trace w @ [SetItem (DBPREFIX P @ KCPREFIX P @ bytesToHex address) ?e]"
        "quota w1 = quota w"
        "keySeed_entries P w1
           = keySeed_entries P (snd (db_insert P (KCPREFIX P @ bytesToHex address) ?e w))"
        "stored_after (quota w1) evs (items w1) = Some r"
      by blast
    have "derive_keys P kc root c (i # ixs) keys w
        = derive_keys P kc root c ixs (keys @ [bytesToHex address]) w1"
      using False n a by (simp add: bindS_db_insert [OF i1])
    with False p1 kk show ?thesis by (intro exI [of _ w1]) simp
  next
    case True
    with fit kk have f1: "stored_after (quota w)
        (SetItem (DBPREFIX P @ KCPREFIX P @ bytesToHex address) ?e
         # SetItem (DBPREFIX P @ KCPREFIX P @ bytesToHex (publicKey node)) ?e # evs) (items w)
        = Some r"
      by simp
    from db_insert_fits [OF f1] obtain w1 where
      i1: "db_insert P (KCPREFIX P @ bytesToHex address) ?e w = (Inr (), w1)"
      and p1: "trace w1 = trace w @ [SetItem (DBPREFIX P @ KCPREFIX P @ bytesToHex address) ?e]"
        "quota w1 = quota w"
        "keySeed_entries P w1
           = keySeed_entries P (snd (db_insert P (KCPREFIX P @ bytesToHex address) ?e w))"
      and f2: "stored_after (quota w1)
         (SetItem (DBPREFIX P @ KCPREFIX P @ bytesToHex (publicKey node)) ?e # evs) (items w1)
         = Some r"
      by blast
    from db_insert_fits [OF f2] obtain w2 where
      i2: "db_insert P (KCPREFIX P @ bytesToHex (publicKey node)) ?e w1 = (Inr (), w2)"
      and p2: "trace w2 = trace w1 @ [SetItem (DBPREFIX P @ KCPREFIX P @ bytesToHex (publicKey node)) ?e]"
        "quota w2 = quota w1"
        "keySeed_entries P w2
           = keySeed_entries P (snd (db_insert P (KCPREFIX P @ bytesToHex (publicKey node)) ?e w1))"
        "stored_after (quota w2) evs (items w2) = Some r"
      by blast
    have "derive_keys P kc root c (i # ixs) keys w
        = derive_keys P kc root c ixs
            (keys @ [bytesToHex address, bytesToHex (publicKey node)]) w2"
      using True n a by (simp add: bindS_db_insert [OF i1] bindS_db_insert [OF i2])
    with True p1 p2 kk show ?thesis by (intro exI [of _ w2]) simp
  qed
qed


lemma creation_calls_Inr:
  assumes "creation_calls P key ks c rk = Inr (keys, evs)"
  shows "\<exists>root k0 k1 k2 bs. fromMasterSeed P (JStr ks) = Inr root
     \<and> spec_key_at P key ks c 0 = Inr k0
     \<and> spec_key_at P key ks c 1 = Inr k1
     \<and> spec_key_at P key ks c 2 = Inr k2
     \<and> writeUInt32BE (c + 1) = Inr bs
     \<and> keys = [fst k0, fst (snd k0), fst k1, fst k2]
     \<and> evs = [SetItem (DBPREFIX P @ KCPREFIX P @ fst k0) (snd (snd k0)),
           SetItem (DBPREFIX P @ KCPREFIX P @ fst (snd k0)) (snd (snd k0)),
           SetItem (DBPREFIX P @ KCPREFIX P @ fst k1) (snd (snd k1)),
           SetItem (DBPREFIX P @ KCPREFIX P @ fst k2) (snd (snd k2)),
           GetItem rk,
           SetItem (keySeed_key P) (keySeed_record P key ks bs)]"
proof -
  from assms obtain k0 k1 k2 bs where
    k: "spec_key_at P key ks c 0 = Inr k0" "spec_key_at P key ks c 1 = Inr k1"
       "spec_key_at P key ks c 2 = Inr k2" "writeUInt32BE (c + 1) = Inr bs"
    and r: "keys = [fst k0, fst (snd k0), fst k1, fst k2]"
       "evs = [SetItem (DBPREFIX P @ KCPREFIX P @ fst k0) (snd (snd k0)),
           SetItem (DBPREFIX P @ KCPREFIX P @ fst (snd k0)) (snd (snd k0)),
           SetItem (DBPREFIX P @ KCPREFIX P @ fst k1) (snd (snd k1)),
           SetItem (DBPREFIX P @ KCPREFIX P @ fst k2) (snd (snd k2)),
           GetItem rk,
           SetItem (keySeed_key P) (keySeed_record P key ks bs)]"
    unfolding creation_calls_def bindE_def by (auto split: sum.splits)
  from k(1) obtain root where "fromMasterSeed P (JStr ks) = Inr root"
    by (auto simp: spec_key_at_def bindE_def split: sum.splits)
  with k r show ?thesis by blast
qed

lemma createKeys_run:
  assumes g: "fst (getKeySeed P kc w) = Inr (Some (ks, c))"
    and v: "validateMnemonic P ks"
    and cc: "creation_calls P (encryptionKey kc) ks c (keySeed_read_key P w) = Inr (keys, evs)"
    and fit: "stored_after (quota w) evs (items w) = Some its'"
  shows "fst (createKeys P kc w) = Inr (Some keys)
     \<and> items (snd (createKeys P kc w)) = its'
     \<and> trace (snd (createKeys P kc w)) = trace w @ GetItem (keySeed_read_key P w) # evs"
proof -
  have u: "isUnlock kc" using g by (rule getKeySeed_Some_unlocked)
  let ?rk = "keySeed_read_key P w"
  let ?key = "encryptionKey kc"
  let ?w1 = "snd (getKeySeed P kc w)"
  from creation_calls_Inr [OF cc] obtain root k0 k1 k2 bs where
    root: "fromMasterSeed P (JStr ks) = Inr root"
    and k: "spec_key_at P ?key ks c 0 = Inr k0" "spec_key_at P ?key ks c 1 = Inr k1"
       "spec_key_at P ?key ks c 2 = Inr k2"
    and bs: "writeUInt32BE (c + 1) = Inr bs"
    and keys: "keys = [fst k0, fst (snd k0), fst k1, fst k2]"
    and evs: "evs = [SetItem (DBPREFIX P @ KCPREFIX P @ fst k0) (snd (snd k0)),
           SetItem (DBPREFIX P @ KCPREFIX P @ fst (snd k0)) (snd (snd k0)),
           SetItem (DBPREFIX P @ KCPREFIX P @ fst k1) (snd (snd k1)),
           SetItem (DBPREFIX P @ KCPREFIX P @ fst k2) (snd (snd k2)),
           GetItem ?rk,
           SetItem (keySeed_key P) (keySeed_record P ?key ks bs)]"
    by blast
  let ?R = "keySeed_record P ?key ks bs"
  have t1: "trace ?w1 = trace w @ [GetItem ?rk]" using g by (rule getKeySeed_trace_read)
  have f0: "stored_after (quota ?w1)
      ((if (0::nat) = 0
        then [SetItem (DBPREFIX P @ KCPREFIX P @ fst k0) (snd (snd k0)),
              SetItem (DBPREFIX P @ KCPREFIX P @ fst (snd k0)) (snd (snd k0))]
        else [SetItem (DBPREFIX P @ KCPREFIX P @ fst k0) (snd (snd k0))])
       @ [SetItem (DBPREFIX P @ KCPREFIX P @ fst k1) (snd (snd k1)),
          SetItem (DBPREFIX P @ KCPREFIX P @ fst k2) (snd (snd k2)),
          GetItem ?rk, SetItem (keySeed_key P) ?R]) (items ?w1) = Some its'"
    using fit by (simp add: evs)
  from derive_keys_run [OF k(1) root f0, of "[1, 2]" "[]"] obtain wa where
    a: "derive_keys P kc root c [0, 1, 2] [] ?w1
          = derive_keys P kc root c [1, 2] [fst k0, fst (snd k0)] wa"
    and ta: "trace wa = trace ?w1 @
          [SetItem (DBPREFIX P @ KCPREFIX P @ fst k0) (snd (snd k0)),
           SetItem (DBPREFIX P @ KCPREFIX P @ fst (snd k0)) (snd (snd k0))]"
    and ea: "keySeed_entries P wa = keySeed_entries P ?w1"
    and fa: "stored_after (quota wa)
          ([SetItem (DBPREFIX P @ KCPREFIX P @ fst k1) (snd (snd k1))]
           @ [SetItem (DBPREFIX P @ KCPREFIX P @ fst k2) (snd (snd k2)),
              GetItem ?rk, SetItem (keySeed_key P) ?R]) (items wa) = Some its'"
    by auto
  have fa': "stored_after (quota wa)
      ((if (1::nat) = 0
        then [SetItem (DBPREFIX P @ KCPREFIX P @ fst k1) (snd (snd k1)),
              SetItem (DBPREFIX P @ KCPREFIX P @ fst (snd k1)) (snd (snd k1))]
        else [SetItem (DBPREFIX P @ KCPREFIX P @ fst k1) (snd (snd k1))])
       @ [SetItem (DBPREFIX P @ KCPREFIX P @ fst k2) (snd (snd k2)),
          GetItem ?rk, SetItem (keySeed_key P) ?R]) (items wa) = Some its'"
    using fa by simp
  from derive_keys_run [OF k(2) root fa', of "[2]" "[fst k0, fst (snd k0)]"] obtain wb where
    b: "derive_keys P kc root c [1, 2] [fst k0, fst (snd k0)] wa
          = derive_keys P kc root c [2] [fst k0, fst (snd k0), fst k1] wb"
    and tb: "trace wb = trace wa @ [SetItem (DBPREFIX P @ KCPREFIX P @ fst k1) (snd (snd k1))]"
    and eb: "keySeed_entries P wb = keySeed_entries P wa"
    and fb: "stored_after (quota wb)
          ([SetItem (DBPREFIX P @ KCPREFIX P @ fst k2) (snd (snd k2))]
           @ [GetItem ?rk, SetItem (keySeed_key P) ?R]) (items wb) = Some its'"
    by auto
  have fb': "stored_after (quota wb)
      ((if (2::nat) = 0
        then [SetItem (DBPREFIX P @ KCPREFIX P @ fst k2) (snd (snd k2)),
              SetItem (DBPREFIX P @ KCPREFIX P @ fst (snd k2)) (snd (snd k2))]
        else [SetItem (DBPREFIX P @ KCPREFIX P @ fst k2) (snd (snd k2))])
       @ [GetItem ?rk, SetItem (keySeed_key P) ?R]) (items wb) = Some its'"
    using fb by simp
  from derive_keys_run [OF k(3) root fb', of "[]" "[fst k0, fst (snd k0), fst k1]"] obtain wc where
    c: "derive_keys P kc root c [2] [fst k0, fst (snd k0), fst k1] wb
          = derive_keys P kc root c [] keys wc"
    and tc: "trace wc = trace wb @ [SetItem (DBPREFIX P @ KCPREFIX P @ fst k2) (snd (snd k2))]"
    and ec: "keySeed_entries P wc = keySeed_entries P wb"
    and fc: "stored_after (quota wc) [GetItem ?rk, SetItem (keySeed_key P) ?R] (items wc)
          = Some its'"
    by (auto simp: keys)
  have dk: "derive_keys P kc root c [0, 1, 2] [] ?w1 = (Inr keys, wc)"
    unfolding a b c by (simp add: ret_def)
  have gk: "generateKeysFromKeyPath P kc ks c 3 ?w1 = (Inr (Some keys), wc)"
    using u v root dk
    by (simp add: generateKeysFromKeyPath_def upt_0_3 bindS_ret del: derive_keys.simps)
  have step: "createKeys P kc w = bindS (increaseKeyPath P kc) (\<lambda>b. ret (Some keys)) wc"
    unfolding createKeys_unfold_existing [OF g]
    by (simp add: bindS_def gk)
  have e: "keySeed_entries P wc = keySeed_entries P w"
    by (simp add: ec eb ea)
  then have "fst (getKeySeed P kc wc) = fst (getKeySeed P kc w)" by (rule getKeySeed_cong)
  then have g2: "fst (getKeySeed P kc wc) = Inr (Some (ks, c))" by (simp add: g)
  have rk: "keySeed_read_key P wc = ?rk" using e by (rule keySeed_read_key_cong)
  let ?w2 = "snd (getKeySeed P kc wc)"
  have t2: "trace ?w2 = trace wc @ [GetItem ?rk]"
    using getKeySeed_trace_read [OF g2] by (simp add: rk)
  from fc have q: "\<not> quota wc < ls_size (AList.update (keySeed_key P) ?R (items wc))"
    and its: "its' = AList.update (keySeed_key P) ?R (items wc)"
    by (simp_all split: if_splits)
  have ikp: "increaseKeyPath P kc wc
      = (Inr True, snd (setItem (keySeed_key P) ?R ?w2))"
    unfolding increaseKeyPath_unfold [OF g2] using q bs
    by (simp add: setItem_def Let_def)
  have "createKeys P kc w = (Inr (Some keys), snd (setItem (keySeed_key P) ?R ?w2))"
    by (simp add: step bindS_def ikp ret_def)
  then show ?thesis
    using q by (simp add: its t2 tc tb ta t1 evs)
qed


lemma createKeys_run_bootstrap:
  assumes u: "isUnlock kc" and ok: "crypto_ok P (encryptionKey kc)" "record_ok P"
    and g: "fst (getKeySeed P kc w) = Inr None"
    and ms: "fst (getMasterSeed P kc None w) = Inr ms"
    and seed: "bootstrap_seed P ms = Inr ks0"
    and v: "validateMnemonic P ks0"
    and cc: "creation_calls P (encryptionKey kc) ks0 0 (keySeed_key P) = Inr (keys, evs)"
    and fit: "stored_after (quota w)
        (SetItem (keySeed_key P) (keySeed_record P (encryptionKey kc) ks0 [0, 0, 0, 0]) # evs)
        (items w) = Some its'"
  shows "fst (createKeys P kc w) = Inr (Some keys)
     \<and> items (snd (createKeys P kc w)) = its'
     \<and> trace (snd (createKeys P kc w))
         = trace (snd (getMasterSeed P kc None w))
           @ SetItem (keySeed_key P) (keySeed_record P (encryptionKey kc) ks0 [0, 0, 0, 0])
           # GetItem (keySeed_key P) # evs"
proof -
  note none = getKeySeed_None [OF u g]
  obtain wm where gm: "getMasterSeed P kc None w = (Inr ms, wm)"
    using ms by (cases "getMasterSeed P kc None w") auto
  then have wm: "wm = snd (getMasterSeed P kc None w)" by simp
  have sm: "items wm = items w" "quota wm = quota w" by (simp_all add: wm)
  let ?R = "keySeed_record P (encryptionKey kc) ks0 [0, 0, 0, 0]"
  let ?s = "setItem (keySeed_key P) ?R wm"
  from fit have q: "\<not> quota wm < ls_size (AList.update (keySeed_key P) ?R (items wm))"
    and fit': "stored_after (quota wm) evs (AList.update (keySeed_key P) ?R (items wm)) = Some its'"
    by (simp_all add: sm split: if_splits)
  from seed obtain root node where
    r: "fromMasterSeed P (undef_val ms) = Inr root" "derive P root pathRoot = Inr node"
       "entropyToMnemonic P (privateKey node) = Inr ks0"
    by (auto simp: bootstrap_seed_def bindE_def split: sum.splits)
  have w0: "writeUInt32BE 0 = Inr [0, 0, 0, 0]" by (simp add: writeUInt32BE_def)
  have fs: "fst ?s = Inr ()" using q by (simp add: setItem_fst)
  have gen: "generateKeySeed P kc (undef_val ms) wm = (Inr True, snd ?s)"
    using u r fs by (simp add: generateKeySeed_def w0 bindS_ret db_insert_def keySeed_key_def)
  have "keySeed_entries P (snd ?s) = AList.update (keySeed_key P) ?R (keySeed_entries P wm)"
    using q by (simp add: keySeed_entries_def filter_update_same)
  moreover have "keySeed_entries P wm = []"
    using none(1) by (simp add: keySeed_entries_def wm)
  ultimately have eg: "keySeed_entries P (snd ?s) = [(keySeed_key P, ?R)]" by simp
  have "readUInt32BE [0, 0, 0, 0] = Inr 0" by (simp add: readUInt32BE_def)
  with u ok eg have gg: "fst (getKeySeed P kc (snd ?s)) = Inr (Some (ks0, 0))"
    by (rule getKeySeed_readback)
  have same: "createKeys P kc w = createKeys P kc (snd ?s)"
    using u none(2) gm gen gg by (rule createKeys_absent_unfold)
  have rk: "keySeed_read_key P (snd ?s) = keySeed_key P" using eg by (rule entries_read_key)
  have cc': "creation_calls P (encryptionKey kc) ks0 0 (keySeed_read_key P (snd ?s)) = Inr (keys, evs)"
    using cc by (simp add: rk)
  have fit'': "stored_after (quota (snd ?s)) evs (items (snd ?s)) = Some its'"
    using fit' q by simp
  from createKeys_run [OF gg v cc' fit''] show ?thesis
    by (simp add: same rk wm [symmetric])
qed

lemma toy_creation_calls:
  "creation_calls toyP ''salt-pw'' ''seed 03'' 0 rk
   = Inr ([''302f3007'', ''02302f30'', ''312f3007'', ''322f3007''],
          [SetItem ''db-kc-302f3007'' ''salt-pw|07302f30'',
           SetItem ''db-kc-02302f30'' ''salt-pw|07302f30'',
           SetItem ''db-kc-312f3007'' ''salt-pw|07302f31'',
           SetItem ''db-kc-322f3007'' ''salt-pw|07302f32'',
           GetItem rk,
           SetItem ''db-kc-keySeed'' (keySeed_record toyP ''salt-pw'' ''seed 03'' [0, 0, 0, 1])])"
  by (simp add: creation_calls_def spec_key_at_def toy_defs model_defs)

lemma createKeys_no_seed:
  assumes "isUnlock kc"
    and "db_listKeys P (KCPREFIX P @ ''keySeed'') w = []"
    and "db_listKeys P (KCPREFIX P @ ''masterSeed'') w = []"
    and "fromMasterSeed P Undefined = Inl e"
  shows "createKeys P kc w = (Inl e, w)"
  using assms
  by (simp add: createKeys_def getKeySeed_def getMasterSeed_def generateKeySeed_def
      undef_val_def bindS_def ret_def liftE_def)

subsection \<open>A creation that fails\<close>

lemma increaseKeyPath_failure_entries:
  assumes g: "fst (getKeySeed P kc w) = Inr (Some (ks, c))"
    and f: "fst (increaseKeyPath P kc w) = Inl e"
  shows "keySeed_entries P (snd (increaseKeyPath P kc w)) = keySeed_entries P w"
proof (cases "writeUInt32BE (c + 1)")
  case (Inl e')
  then show ?thesis by (simp add: increaseKeyPath_unfold [OF g])
next
  case (Inr bs)
  with f show ?thesis
    by (simp add: increaseKeyPath_unfold [OF g] setItem_def Let_def keySeed_entries_def
        split: if_splits)
qed

lemma createKeys_failure_entries:
  assumes f: "createKeys P kc w = (Inl e, w')"
    and g: "fst (getKeySeed P kc w) \<noteq> Inr None"
  shows "keySeed_entries P w' = keySeed_entries P w"
proof (cases "fst (getKeySeed P kc w)")
  case (Inl e')
  have u: "isUnlock kc"
    using f by (cases "isUnlock kc") (simp_all add: createKeys_def ret_def)
  obtain w1 where "getKeySeed P kc w = (Inl e', w1)"
    using Inl by (cases "getKeySeed P kc w") auto
  moreover from this have "keySeed_entries P w1 = keySeed_entries P w"
    using getKeySeed_entries [of P kc w] by simp
  ultimately show ?thesis
    using f u by (simp add: createKeys_def bindS_def)
next
  case (Inr r)
  with g obtain ks c where gs: "fst (getKeySeed P kc w) = Inr (Some (ks, c))"
    by (cases r) auto
  let ?w1 = "snd (getKeySeed P kc w)"
  let ?gk = "generateKeysFromKeyPath P kc ks c 3 ?w1"
  have e2: "keySeed_entries P (snd ?gk) = keySeed_entries P w" by simp
  note unf = createKeys_unfold_existing [OF gs]
  show ?thesis
  proof (cases "fst ?gk")
    case (Inl e')
    with f unf e2 show ?thesis
      by (auto simp: bindS_eq [of "generateKeysFromKeyPath P kc ks c 3"])
  next
    case rk: (Inr rk)
    show ?thesis
    proof (cases rk)
      case None
      with f unf e2 rk show ?thesis
        by (auto simp: bindS_eq [of "generateKeysFromKeyPath P kc ks c 3"] throw_def)
    next
      case (Some keys)
      have "fst (getKeySeed P kc (snd ?gk)) = fst (getKeySeed P kc w)"
        using e2 by (rule getKeySeed_cong)
      then have g2: "fst (getKeySeed P kc (snd ?gk)) = Inr (Some (ks, c))" by (simp add: gs)
      from f unf rk Some have
        i: "fst (increaseKeyPath P kc (snd ?gk)) = Inl e"
        and w': "w' = snd (increaseKeyPath P kc (snd ?gk))"
        by (auto simp: bindS_eq [of "generateKeysFromKeyPath P kc ks c 3"] bindS_ret
            split: sum.splits)
      from increaseKeyPath_failure_entries [OF g2 i] w' e2 show ?thesis by simp
    qed
  qed
qed

lemma toy_createKeys_quota:
  "createKeys toyP (unlocked ''salt-pw'') small_store
   = (Inl QuotaExceededError,
      \<lparr>items =
         [(''db-kc-keySeed'', keySeed_record toyP ''salt-pw'' ''seed 03'' [0, 0, 0, 0]),
          (''db-kc-302f3007'', ''salt-pw|07302f30''),
          (''db-kc-02302f30'', ''salt-pw|07302f30'')],
       quota = 163,
       trace =
         [GetItem ''db-kc-keySeed'',
          SetItem ''db-kc-302f3007'' ''salt-pw|07302f30'',
          SetItem ''db-kc-02302f30'' ''salt-pw|07302f30'',
          SetItem ''db-kc-312f3007'' ''salt-pw|07302f31''],
       console = [], clock = 0, timers = [], next_timer = 0\<rparr>)"
  by (simp add: createKeys_def getKeySeed_def generateKeysFromKeyPath_def increaseKeyPath_def
      small_store_def upt_0_3 toy_defs model_defs del: bindS_liftE)

subsection \<open>Export and import\<close>

lemma export_loop_items [simp]:
  "items (snd (export_loop P ks acc w)) = items w"
  by (induction ks arbitrary: acc w) (auto simp: getItem_def split: prod.splits)

lemma getItem_fst [simp]: "fst (getItem k w) = map_of (items w) k"
  by (simp add: getItem_def)

lemma getItem_items [simp]: "items (snd (getItem k w)) = items w"
  by (simp add: getItem_def)

lemma export_loop_map:
  assumes "\<not> sublist (DBPREFIX P) ''__proto__''"
  shows "map_of (fst (export_loop P ks acc w)) k
     = (if k \<in> set ks \<and> sublist (DBPREFIX P) k
        then (case map_of (items w) k of None \<Rightarrow> map_of acc k | Some s \<Rightarrow> Some (JStr s))
        else map_of acc k)"
proof (induction ks arbitrary: acc w)
  case Nil
  then show ?case by simp
next
  case (Cons x ks)
  show ?case
  proof (cases "sublist (DBPREFIX P) x")
    case False
    then show ?thesis using Cons.IH [of acc w] by auto
  next
    case True
    with assms have x: "x \<noteq> ''__proto__''" by auto
    have step: "export_loop P (x # ks) acc w
        = export_loop P ks (case map_of (items w) x of None \<Rightarrow> acc | Some s \<Rightarrow> obj_set acc x s)
            (snd (getItem x w))"
      using True by (simp add: split_beta)
    have acc: "map_of (obj_set acc x s) k' = (if k' = x then Some (JStr s) else map_of acc k')"
      for s k'
      using x by (simp add: obj_set_def update_conv')
    show ?thesis
    proof (cases "map_of (items w) x")
      case None
      then show ?thesis
        unfolding step using Cons.IH [of acc "snd (getItem x w)"] True
        by auto
    next
      case (Some s)
      then show ?thesis
        unfolding step using Cons.IH [of "obj_set acc x s" "snd (getItem x w)"] True
        by (auto simp: acc split: option.splits)
    qed
  qed
qed

lemma exported_object_map:
  assumes "\<not> sublist (DBPREFIX P) ''__proto__''"
  shows "map_of (exported_object P w) k
     = (if sublist (DBPREFIX P) k then map_option JStr (map_of (items w) k) else None)"
proof -
  have "k \<notin> set (map fst (items w)) \<Longrightarrow> map_of (items w) k = None"
    by (simp add: map_of_eq_None_iff)
  then show ?thesis
    unfolding exported_object_def export_loop_map [OF assms]
    by (auto split: option.splits)
qed

lemma update_fresh: "k \<notin> fst ` set its \<Longrightarrow> AList.update k v its = its @ [(k, v)]"
  by (induction its) auto

lemma ls_size_append [simp]: "ls_size (xs @ ys) = ls_size xs + ls_size ys"
  by (simp add: ls_size_def)

lemma import_loop_fresh:
  assumes "distinct (map fst obj)"
    and "\<forall>kv \<in> set obj. \<exists>s. snd kv = JStr s"
    and "fst ` set obj \<inter> fst ` set (items w0) = {}"
    and "ls_size (items w0) + ls_size (map (\<lambda>kv. (fst kv, str_of (snd kv))) obj) \<le> quota w0"
  shows "fst (import_loop obj w0) = Inr ()
     \<and> items (snd (import_loop obj w0))
         = items w0 @ map (\<lambda>kv. (fst kv, str_of (snd kv))) obj"
  using assms
proof (induction obj arbitrary: w0)
  case Nil
  then show ?case by (simp add: ret_def)
next
  case (Cons kv obj)
  from Cons.prems(2) obtain s where s: "snd kv = JStr s" by auto
  from Cons.prems(3) have fresh: "fst kv \<notin> fst ` set (items w0)" by auto
  have up: "AList.update (fst kv) s (items w0) = items w0 @ [(fst kv, s)]"
    using fresh by (rule update_fresh)
  from Cons.prems(4) have q: "\<not> quota w0 < ls_size (items w0 @ [(fst kv, s)])"
    by (simp add: s) (simp add: ls_size_def)
  obtain w1 where set1: "setItem (fst kv) s w0 = (Inr (), w1)"
    and it1: "items w1 = items w0 @ [(fst kv, s)]" and q1: "quota w1 = quota w0"
    using q by (simp add: setItem_def Let_def up)
  have step: "import_loop (kv # obj) w0 = import_loop obj w1"
    by (simp add: s bindS_def liftE_def set1)
  have d: "distinct (map fst obj)" using Cons.prems(1) by simp
  have v: "\<forall>kv \<in> set obj. \<exists>s. snd kv = JStr s" using Cons.prems(2) by simp
  have f: "fst ` set obj \<inter> fst ` set (items w1) = {}"
    using Cons.prems(1,3) by (auto simp: it1)
  have z: "ls_size (items w1) + ls_size (map (\<lambda>kv. (fst kv, str_of (snd kv))) obj) \<le> quota w1"
    using Cons.prems(4) by (simp add: it1 q1 s) (simp add: ls_size_def)
  from Cons.IH [OF d v f z] show ?case
    unfolding step by (simp add: it1 s)
qed

lemma sum_list_remdups_le: "sum_list (map g (remdups ys)) \<le> sum_list (map (g :: 'a \<Rightarrow> nat) ys)"
  by (induction ys) auto

lemma sum_list_distinct_subset:
  assumes "distinct xs" and "set xs \<subseteq> set ys"
  shows "sum_list (map (g :: 'a \<Rightarrow> nat) xs) \<le> sum_list (map g ys)"
proof -
  have "sum_list (map g xs) = sum g (set xs)"
    using assms(1) by (rule sum_list_distinct_conv_sum_set)
  also have "\<dots> \<le> sum g (set ys)"
    using assms(2) by (intro sum_mono2) auto
  also have "\<dots> = sum_list (map g (remdups ys))"
    by (simp add: sum_list_distinct_conv_sum_set)
  also have "\<dots> \<le> sum_list (map g ys)" by (rule sum_list_remdups_le)
  finally show ?thesis .
qed

lemma map_of_str_of:
  "map_of (map (\<lambda>kv. (fst kv, str_of (snd kv))) obj) k = map_option str_of (map_of obj k)"
  by (induction obj) auto

lemma toy_exported_object:
  "exported_object toyP store_two = [(''db-kc-3031'', JStr ''salt-pw|3130'')]"
  by (simp add: exported_object_def store_two_def fresh_world_def toyP_def getItem_def obj_set_def
      sublist_Cons_right)

lemma toy_parse_single:
  "toy_parse (toy_stringify (JObj [(k, JStr a)])) = Inr (JObj [(k, JStr a)])"
  unfolding toy_parse_def
  by (simp add: lex_toy_str)

section \<open>The lock guard\<close>

text \<open>
  C1. Each key-touching operation (\<open>createKeys\<close>, \<open>generateKeySeed\<close>, \<open>getKeySeed\<close>,
  \<open>increaseKeyPath\<close>, \<open>generateSingleKey\<close>, \<open>generateRecoveryAddr\<close>,
  \<open>generateKeyRand\<close>, \<open>importKey\<close>, \<open>sign\<close>, \<open>getMasterSeed\<close>, \<open>export\<close>), called on a
  locked container, takes the failing branch of its guard and does nothing else: it
  returns the value of that branch (\<open>undefined\<close>, \<open>false\<close>, or the text
  \<open>KeyContainer blocked\<close> for \<open>sign\<close>) and leaves \<^verbatim>\<open>localStorage\<close> and its call log
  as they were, at most printing \<open>Error: KeyContainer not unlocked\<close>. In particular
  \<open>sign\<close> makes no \<^verbatim>\<open>getItem\<close> call: the encrypted private key is not read.
\<close>

theorem locked_operations_fail:
  assumes "\<not> isUnlock kc"
  shows "createKeys P kc w = (Inr None, w)
     \<and> generateKeySeed P kc masterSeed w = (Inr False, w)
     \<and> getKeySeed P kc w = (Inr None, w)
     \<and> increaseKeyPath P kc w = (Inr False, w)
     \<and> generateSingleKey P kc keyProfilePath keyIndex w = (Inr None, w)
     \<and> generateRecoveryAddr P kc masterSeed w = (Inr None, w)
     \<and> getMasterSeed P kc pass w = (Inr None, w)
     \<and> generateKeyRand P kc w_privKey w
         = (Inr None, console_error ''Error: KeyContainer not unlocked'' w)
     \<and> importKey P kc privKHex w
         = (Inr None, console_error ''Error: KeyContainer not unlocked'' w)
     \<and> db_export P (encryptionKey kc) w
         = (None, console_log ''Error: KeyContainer not unlocked'' w)
     \<and> sign P kc addressHex data w
         = (Inr (JStr ''KeyContainer blocked''),
            console_error ''Error: KeyContainer not unlocked'' w)
     \<and> trace (snd (sign P kc addressHex data w)) = trace w
     \<and> items (snd (sign P kc addressHex data w)) = items w"
  using assms
  by (simp add: isUnlock_def createKeys_def generateKeySeed_def getKeySeed_def
      increaseKeyPath_def generateSingleKey_def generateRecoveryAddr_def getMasterSeed_def
      generateKeyRand_def importKey_def db_export_def sign_def ret_def console_error_def)

theorem locked_operations_fail_witness:
  "\<not> isUnlock new_container
   \<and> sign toyP new_container ''3031'' (JStr ''hello'')
         ((fresh_world 100)\<lparr>items := [(''db-kc-3031'', ''salt-pw|3130'')]\<rparr>)
       = (Inr (JStr ''KeyContainer blocked''),
          console_error ''Error: KeyContainer not unlocked''
            ((fresh_world 100)\<lparr>items := [(''db-kc-3031'', ''salt-pw|3130'')]\<rparr>))
   \<and> trace (snd (sign toyP new_container ''3031'' (JStr ''hello'')
         ((fresh_world 100)\<lparr>items := [(''db-kc-3031'', ''salt-pw|3130'')]\<rparr>))) = []
   \<and> createKeys toyP new_container (fresh_world 100) = (Inr None, fresh_world 100)"
  using locked_operations_fail [of new_container toyP
      "(fresh_world 100)\<lparr>items := [(''db-kc-3031'', ''salt-pw|3130'')]\<rparr>"
      Undefined 0 0 None "[]" Undefined "''3031''" "JStr ''hello''"]
    locked_operations_fail [of new_container toyP "fresh_world 100"
      Undefined 0 0 None "[]" Undefined "''3031''" "JStr ''hello''"]
  by (simp add: isUnlock_def new_container_def fresh_world_def console_error_def)

text \<open>
  C10. \<open>getRecoveryAddr\<close> sits behind the lock guard although it reads the key names
  only: locked, it returns \<open>undefined\<close>, which is also what it returns unlocked when no
  key carries the recovery prefix; unlocked, its result depends neither on the key of
  the container nor on any stored value.
\<close>

theorem getRecoveryAddr_locked_is_absent:
  "(\<not> isUnlock kc \<longrightarrow> getRecoveryAddr P kc w = None)
   \<and> (isUnlock kc \<and> db_listKeys P (KCPREFIX P @ IDRECOVERYPREFIX P) w = []
        \<longrightarrow> getRecoveryAddr P kc w = None)
   \<and> (isUnlock kc \<and> isUnlock kc' \<and> map fst (items w) = map fst (items w')
        \<longrightarrow> getRecoveryAddr P kc w = getRecoveryAddr P kc' w')"
  by (simp add: getRecoveryAddr_def db_listKeys_def)

theorem getRecoveryAddr_locked_is_absent_witness:
  "\<not> isUnlock new_container
   \<and> getRecoveryAddr toyP new_container
         ((fresh_world 100)\<lparr>items := [(''db-kc-idRecovery-3031'', ''salt-pw|3130'')]\<rparr>) = None
   \<and> isUnlock (unlocked ''salt-pw'')
   \<and> getRecoveryAddr toyP (unlocked ''salt-pw'') (fresh_world 100) = None
   \<and> getRecoveryAddr toyP (unlocked ''salt-pw'')
         ((fresh_world 100)\<lparr>items := [(''db-kc-idRecovery-3031'', ''salt-pw|3130'')]\<rparr>)
       = Some ''3031''"
  using getRecoveryAddr_locked_is_absent [of new_container toyP
      "(fresh_world 100)\<lparr>items := [(''db-kc-idRecovery-3031'', ''salt-pw|3130'')]\<rparr>"]
    getRecoveryAddr_locked_is_absent [of "unlocked ''salt-pw''" toyP "fresh_world 100"]
  by (simp add: isUnlock_def new_container_def unlocked_def fresh_world_def
      getRecoveryAddr_def db_listKeys_def toyP_def)

section \<open>The path counter\<close>

text \<open>
  C9. The counter is stored as four big-endian bytes, so what \<open>getKeySeed\<close> reads is at
  most \<open>2^32 - 1\<close>. With a key-seed record under the \<open>keySeed\<close> label whose counter is
  \<open>c\<close>: if \<open>c < 2^32 - 1\<close>, \<open>increaseKeyPath\<close> returns \<open>true\<close> and the counter then reads
  \<open>c + 1\<close>, unless \<^verbatim>\<open>localStorage\<close> has no room for the new record; if
  \<open>c = 2^32 - 1\<close>, writing \<open>c + 1\<close> into the four bytes throws a range error and the
  store is left as it was, so the counter never wraps to 0.
\<close>

theorem increaseKeyPath_counter:
  assumes l: "db_listKeys P (KCPREFIX P @ ''keySeed'') w = [KCPREFIX P @ ''keySeed'']"
    and g: "fst (getKeySeed P kc w) = Inr (Some (ks, c))"
    and ok: "crypto_ok P (encryptionKey kc)" "record_ok P"
  shows "c \<le> 4294967295
     \<and> (c < 4294967295 \<and> fst (increaseKeyPath P kc w) \<noteq> Inl QuotaExceededError \<longrightarrow>
          fst (increaseKeyPath P kc w) = Inr True
          \<and> fst (getKeySeed P kc (snd (increaseKeyPath P kc w))) = Inr (Some (ks, c + 1)))
     \<and> (c = 4294967295 \<longrightarrow>
          fst (increaseKeyPath P kc w) = Inl RangeError
          \<and> items (snd (increaseKeyPath P kc w)) = items w)"
proof -
  from l obtain r where e: "keySeed_entries P w = [(keySeed_key P, r)]"
    using label_entries by blast
  note unf = increaseKeyPath_unfold [OF g]
  have bound: "c \<le> 4294967295"
  proof -
    have u: "isUnlock kc" using g by (rule getKeySeed_Some_unlocked)
    from g u obtain s where "readUInt32BE (hexToBytes s) = Inr c"
      by (auto simp: getKeySeed_def Let_def bindE_def split: if_splits prod.splits sum.splits)
    then show ?thesis by (rule readUInt32BE_bound)
  qed
  have top: "fst (increaseKeyPath P kc w) = Inl RangeError
             \<and> items (snd (increaseKeyPath P kc w)) = items w" if "c = 4294967295"
    using that unf by (simp add: writeUInt32BE_def)
  have below: "fst (increaseKeyPath P kc w) = Inr True
          \<and> fst (getKeySeed P kc (snd (increaseKeyPath P kc w))) = Inr (Some (ks, c + 1))"
    if c: "c < 4294967295" and q: "fst (increaseKeyPath P kc w) \<noteq> Inl QuotaExceededError"
  proof -
    from c obtain bs where bs: "writeUInt32BE (c + 1) = Inr bs"
      by (simp add: writeUInt32BE_def)
    have "fst (increaseKeyPath P kc w) = Inl QuotaExceededError
          \<or> fst (increaseKeyPath P kc w) = Inr True"
      using unf bs by (simp add: setItem_def Let_def)
    with q have t: "fst (increaseKeyPath P kc w) = Inr True" by simp
    from increaseKeyPath_step [OF e g ok t] t show ?thesis by simp
  qed
  from bound top below show ?thesis by blast
qed

theorem increaseKeyPath_counter_witness:
  "fst (increaseKeyPath toyP (unlocked ''salt-pw'') (store_with_counter [255, 255, 255, 255]))
     = Inl RangeError
   \<and> items (snd (increaseKeyPath toyP (unlocked ''salt-pw'')
               (store_with_counter [255, 255, 255, 255])))
     = items (store_with_counter [255, 255, 255, 255])
   \<and> fst (increaseKeyPath toyP (unlocked ''salt-pw'') (store_with_counter [0, 0, 0, 0]))
     = Inr True
   \<and> fst (getKeySeed toyP (unlocked ''salt-pw'')
            (snd (increaseKeyPath toyP (unlocked ''salt-pw'') (store_with_counter [0, 0, 0, 0]))))
     = Inr (Some (''seed 03'', 1))"
proof -
  have g0: "fst (getKeySeed toyP (unlocked ''salt-pw'') (store_with_counter [0, 0, 0, 0]))
      = Inr (Some (''seed 03'', 0))"
    by (simp add: toy_getKeySeed)
  have gt: "fst (getKeySeed toyP (unlocked ''salt-pw'') (store_with_counter [255, 255, 255, 255]))
      = Inr (Some (''seed 03'', 4294967295))"
    by (simp add: toy_getKeySeed)
  have q: "fst (increaseKeyPath toyP (unlocked ''salt-pw'') (store_with_counter [0, 0, 0, 0]))
      \<noteq> Inl QuotaExceededError"
    unfolding increaseKeyPath_unfold [OF g0]
    by (simp add: writeUInt32BE_def setItem_def Let_def store_with_counter_def fresh_world_def
        keySeed_key_def toyP_def keySeed_record_def ls_size_def getKeySeed_def db_listKeys_def
        db_get_def getItem_def isUnlock_def unlocked_def toy_str_def toy_encrypt_def
        bytesToHex_def hex_digit_def)
  from increaseKeyPath_counter [OF toy_label g0 toy_crypto_ok toy_record_ok]
       increaseKeyPath_counter [OF toy_label gt toy_crypto_ok toy_record_ok] q
  show ?thesis by simp
qed

text \<open>
  C2, as the spec states it, fails: \<open>generateKeySeed\<close> replaces the record and starts
  the counter again at 0, here under the same key seed from 1 back to 0, and
  \<open>deleteAll\<close>, which consults no lock, removes the record.
\<close>

theorem pathCounter_never_decreases_counterexample:
  "fst (getKeySeed toyP (unlocked ''salt-pw'') (store_with_counter [0, 0, 0, 1]))
     = Inr (Some (''seed 03'', 1))
   \<and> fst (generateKeySeed toyP (unlocked ''salt-pw'') (JStr ''abc'')
            (store_with_counter [0, 0, 0, 1])) = Inr True
   \<and> fst (getKeySeed toyP (unlocked ''salt-pw'')
            (snd (generateKeySeed toyP (unlocked ''salt-pw'') (JStr ''abc'')
                    (store_with_counter [0, 0, 0, 1]))))
     = Inr (Some (''seed 03'', 0))
   \<and> items (deleteAll (store_with_counter [0, 0, 0, 1])) = []"
proof -
  have "keySeed_entries toyP
          ((store_with_counter [0, 0, 0, 0])
             \<lparr>trace := [SetItem ''db-kc-keySeed''
                          (keySeed_record toyP ''salt-pw'' ''seed 03'' [0, 0, 0, 0])]\<rparr>)
        = keySeed_entries toyP (store_with_counter [0, 0, 0, 0])"
    by (simp add: keySeed_entries_def)
  then have "fst (getKeySeed toyP (unlocked ''salt-pw'')
          ((store_with_counter [0, 0, 0, 0])
             \<lparr>trace := [SetItem ''db-kc-keySeed''
                          (keySeed_record toyP ''salt-pw'' ''seed 03'' [0, 0, 0, 0])]\<rparr>))
        = fst (getKeySeed toyP (unlocked ''salt-pw'') (store_with_counter [0, 0, 0, 0]))"
    by (rule getKeySeed_cong)
  then show ?thesis
    by (simp add: toy_generateKeySeed toy_getKeySeed deleteAll_def db_deleteAll_def clear_def)
qed

text \<open>
  C2, amended. With a key-seed record under the \<open>keySeed\<close> label whose counter reads
  \<open>c\<close>, after \<open>n\<close> calls of \<open>createKeys\<close> on the unlocked container that each returned
  their keys the counter reads \<open>c + n\<close>, under the same key seed: every such call
  adds exactly 1, so along these calls the counter never decreases. On a locked
  container \<open>createKeys\<close>, \<open>increaseKeyPath\<close> and \<open>generateKeySeed\<close>, the operations that
  write the record, leave the host as it was.
\<close>

theorem createKeys_counter_advances:
  assumes "db_listKeys P (KCPREFIX P @ ''keySeed'') w = [KCPREFIX P @ ''keySeed'']"
    and "fst (getKeySeed P kc w) = Inr (Some (ks, c))"
    and "crypto_ok P (encryptionKey kc)" and "record_ok P"
    and "createKeys_n P kc n w = Some w'"
  shows "fst (getKeySeed P kc w') = Inr (Some (ks, c + n))
     \<and> (\<not> isUnlock kc' \<longrightarrow>
          snd (createKeys P kc' w) = w \<and> snd (increaseKeyPath P kc' w) = w
          \<and> snd (generateKeySeed P kc' masterSeed w) = w)"
proof -
  from assms(1) obtain r where e: "keySeed_entries P w = [(keySeed_key P, r)]"
    using label_entries by blast
  have "fst (getKeySeed P kc w') = Inr (Some (ks, c + n))"
    using e assms(2-5) by (rule createKeys_n_counter)
  moreover have "snd (createKeys P kc' w) = w \<and> snd (increaseKeyPath P kc' w) = w
          \<and> snd (generateKeySeed P kc' masterSeed w) = w" if "\<not> isUnlock kc'"
    using that by (simp add: createKeys_def increaseKeyPath_def generateKeySeed_def)
  ultimately show ?thesis by blast
qed

theorem createKeys_counter_advances_witness:
  "fst (getKeySeed toyP (unlocked ''salt-pw'')
          (snd (createKeys toyP (unlocked ''salt-pw'') (store_with_counter [0, 0, 0, 0]))))
     = Inr (Some (''seed 03'', 1))
   \<and> snd (createKeys toyP new_container (store_with_counter [0, 0, 0, 0]))
     = store_with_counter [0, 0, 0, 0]"
proof -
  have g0: "fst (getKeySeed toyP (unlocked ''salt-pw'') (store_with_counter [0, 0, 0, 0]))
      = Inr (Some (''seed 03'', 0))"
    by (simp add: toy_getKeySeed)
  have n: "createKeys_n toyP (unlocked ''salt-pw'') 1 (store_with_counter [0, 0, 0, 0])
      = Some (snd (createKeys toyP (unlocked ''salt-pw'') (store_with_counter [0, 0, 0, 0])))"
    by (simp add: toy_createKeys)
  have l: "\<not> isUnlock new_container"
    by (simp add: isUnlock_def new_container_def)
  from createKeys_counter_advances [OF toy_label g0 toy_crypto_ok toy_record_ok n,
      of new_container Undefined] l
  show ?thesis by simp
qed

section \<open>Creating the keys of a profile\<close>

text \<open>
  C3, as the spec states it, fails: not every unlocked store lets \<open>createKeys\<close> create
  a profile. It bootstraps the key-seed record from the stored master seed and never
  makes one: on an unlocked container over an empty store it hands \<open>undefined\<close> to the
  derivation of the key seed, which throws, and nothing is stored. And on a record whose
  counter is \<open>2^32 - 1\<close> it throws the range error of the counter write and returns no
  identifiers.
\<close>

theorem createKeys_without_master_seed_counterexample:
  "isUnlock (unlocked ''salt-pw'')
   \<and> createKeys toyP (unlocked ''salt-pw'') (fresh_world 1000)
       = (Inl TypeError, fresh_world 1000)
   \<and> fst (createKeys toyP (unlocked ''salt-pw'') (store_with_counter [255, 255, 255, 255]))
       = Inl RangeError"
  by (simp add: createKeys_def getKeySeed_def getMasterSeed_def generateKeySeed_def
      generateKeysFromKeyPath_def increaseKeyPath_def undef_val_def upt_0_3 toy_defs model_defs
      del: bindS_liftE)

text \<open>
  C3, amended. On an unlocked store whose key-seed record reads key seed \<open>ks\<close> and counter
  \<open>c\<close>, where \<open>ks\<close> is a valid mnemonic, the three keys at \<open>(ks, c, 0)\<close>, \<open>(ks, c, 1)\<close>,
  \<open>(ks, c, 2)\<close> can be derived, \<open>c + 1\<close> fits four bytes and \<^verbatim>\<open>localStorage\<close> has room
  at each write, \<open>createKeys\<close> returns the three addresses with the first public key;
  \<^verbatim>\<open>localStorage\<close> then holds exactly what it held with each encrypted private key
  written under its address, the first also under its public key, and the record
  written with counter \<open>c + 1\<close>; and it saw one read of the record, these four writes,
  one more read of the record and the write of the record, nothing else. On an
  unlocked store with no record under the label, where the master seed read (or
  \<open>undefined\<close>) gives the key seed \<open>ks0\<close>, \<open>createKeys\<close> first writes a record with
  counter 0 for \<open>ks0\<close> and goes on from there in the same way. With neither a record
  nor a master seed under their labels, \<open>createKeys\<close> hands \<open>undefined\<close> to the derivation
  of the key seed; when that throws, \<open>createKeys\<close> throws the same error and the host is
  as it was.
\<close>

theorem createKeys_creates_profile:
  "(fst (getKeySeed P kc w) = Inr (Some (ks, c)) \<and> validateMnemonic P ks
      \<and> creation_calls P (encryptionKey kc) ks c (keySeed_read_key P w) = Inr (keys, evs)
      \<and> stored_after (quota w) evs (items w) = Some its'
     \<longrightarrow> fst (createKeys P kc w) = Inr (Some keys)
        \<and> items (snd (createKeys P kc w)) = its'
        \<and> trace (snd (createKeys P kc w)) = trace w @ GetItem (keySeed_read_key P w) # evs)
   \<and> (isUnlock kc \<and> crypto_ok P (encryptionKey kc) \<and> record_ok P
      \<and> fst (getKeySeed P kc w) = Inr None
      \<and> fst (getMasterSeed P kc None w) = Inr ms
      \<and> bootstrap_seed P ms = Inr ks0 \<and> validateMnemonic P ks0
      \<and> creation_calls P (encryptionKey kc) ks0 0 (keySeed_key P) = Inr (keys0, evs0)
      \<and> stored_after (quota w)
           (SetItem (keySeed_key P) (keySeed_record P (encryptionKey kc) ks0 [0, 0, 0, 0]) # evs0)
           (items w) = Some its0
     \<longrightarrow> fst (createKeys P kc w) = Inr (Some keys0)
        \<and> items (snd (createKeys P kc w)) = its0
        \<and> trace (snd (createKeys P kc w))
            = trace (snd (getMasterSeed P kc None w))
              @ SetItem (keySeed_key P) (keySeed_record P (encryptionKey kc) ks0 [0, 0, 0, 0])
              # GetItem (keySeed_key P) # evs0)
   \<and> (isUnlock kc
      \<and> db_listKeys P (KCPREFIX P @ ''keySeed'') w = []
      \<and> db_listKeys P (KCPREFIX P @ ''masterSeed'') w = []
      \<and> fromMasterSeed P Undefined = Inl e
     \<longrightarrow> createKeys P kc w = (Inl e, w))"
  using createKeys_run [of P kc w ks c keys evs its']
    createKeys_run_bootstrap [of kc P w ms ks0 keys0 evs0 its0]
    createKeys_no_seed [of kc P w e]
  by blast

theorem createKeys_creates_profile_witness:
  "fst (createKeys toyP (unlocked ''salt-pw'') (store_with_counter [0, 0, 0, 0]))
     = Inr (Some [''302f3007'', ''02302f30'', ''312f3007'', ''322f3007''])
   \<and> items (snd (createKeys toyP (unlocked ''salt-pw'') (store_with_counter [0, 0, 0, 0])))
     = [(''db-kc-keySeed'', keySeed_record toyP ''salt-pw'' ''seed 03'' [0, 0, 0, 1]),
        (''db-kc-302f3007'', ''salt-pw|07302f30''),
        (''db-kc-02302f30'', ''salt-pw|07302f30''),
        (''db-kc-312f3007'', ''salt-pw|07302f31''),
        (''db-kc-322f3007'', ''salt-pw|07302f32'')]
   \<and> fst (createKeys toyP (unlocked ''salt-pw'') store_with_masterSeed)
     = Inr (Some [''302f3007'', ''02302f30'', ''312f3007'', ''322f3007''])
   \<and> items (snd (createKeys toyP (unlocked ''salt-pw'') store_with_masterSeed))
     = [(''db-kc-masterSeed'', ''salt-pw|abc''),
        (''db-kc-keySeed'', keySeed_record toyP ''salt-pw'' ''seed 03'' [0, 0, 0, 1]),
        (''db-kc-302f3007'', ''salt-pw|07302f30''),
        (''db-kc-02302f30'', ''salt-pw|07302f30''),
        (''db-kc-312f3007'', ''salt-pw|07302f31''),
        (''db-kc-322f3007'', ''salt-pw|07302f32'')]
   \<and> trace (snd (createKeys toyP (unlocked ''salt-pw'') store_with_masterSeed))
     = [GetItem ''db-kc-masterSeed'',
        SetItem ''db-kc-keySeed'' (keySeed_record toyP ''salt-pw'' ''seed 03'' [0, 0, 0, 0]),
        GetItem ''db-kc-keySeed'',
        SetItem ''db-kc-302f3007'' ''salt-pw|07302f30'',
        SetItem ''db-kc-02302f30'' ''salt-pw|07302f30'',
        SetItem ''db-kc-312f3007'' ''salt-pw|07302f31'',
        SetItem ''db-kc-322f3007'' ''salt-pw|07302f32'',
        GetItem ''db-kc-keySeed'',
        SetItem ''db-kc-keySeed'' (keySeed_record toyP ''salt-pw'' ''seed 03'' [0, 0, 0, 1])]
   \<and> createKeys toyP (unlocked ''salt-pw'') (fresh_world 2000) = (Inl TypeError, fresh_world 2000)"
proof -
  let ?keys = "[''302f3007'', ''02302f30'', ''312f3007'', ''322f3007'']"
  let ?evs = "\<lambda>rk. [SetItem ''db-kc-302f3007'' ''salt-pw|07302f30'',
           SetItem ''db-kc-02302f30'' ''salt-pw|07302f30'',
           SetItem ''db-kc-312f3007'' ''salt-pw|07302f31'',
           SetItem ''db-kc-322f3007'' ''salt-pw|07302f32'',
           GetItem rk,
           SetItem ''db-kc-keySeed'' (keySeed_record toyP ''salt-pw'' ''seed 03'' [0, 0, 0, 1])]"
  let ?new = "[(''db-kc-keySeed'', keySeed_record toyP ''salt-pw'' ''seed 03'' [0, 0, 0, 1]),
        (''db-kc-302f3007'', ''salt-pw|07302f30''),
        (''db-kc-02302f30'', ''salt-pw|07302f30''),
        (''db-kc-312f3007'', ''salt-pw|07302f31''),
        (''db-kc-322f3007'', ''salt-pw|07302f32'')]"
  have e: "encryptionKey (unlocked ''salt-pw'') = ''salt-pw''" "isUnlock (unlocked ''salt-pw'')"
    by (simp_all add: unlocked_def isUnlock_def)
  have kk: "keySeed_key toyP = ''db-kc-keySeed''"
    by (simp add: keySeed_key_def toyP_def)
  have vm: "validateMnemonic toyP ''seed 03''" by (simp add: toyP_def)
  have g0: "fst (getKeySeed toyP (unlocked ''salt-pw'') (store_with_counter [0, 0, 0, 0]))
      = Inr (Some (''seed 03'', 0))"
    by (simp add: toy_getKeySeed)
  have k0: "keySeed_read_key toyP (store_with_counter [0, 0, 0, 0]) = ''db-kc-keySeed''"
    by (simp add: keySeed_read_key_def db_listKeys_def store_with_counter_def fresh_world_def
        toyP_def)
  have c0: "creation_calls toyP (encryptionKey (unlocked ''salt-pw'')) ''seed 03'' 0
        (keySeed_read_key toyP (store_with_counter [0, 0, 0, 0]))
      = Inr (?keys, ?evs ''db-kc-keySeed'')"
    by (simp only: e k0 toy_creation_calls)
  have s0: "stored_after (quota (store_with_counter [0, 0, 0, 0])) (?evs ''db-kc-keySeed'')
        (items (store_with_counter [0, 0, 0, 0])) = Some ?new"
    by (simp add: store_with_counter_def fresh_world_def ls_size_def keySeed_record_def
        toy_defs bytesToHex_def hex_digit_def)
  have t0: "trace (store_with_counter [0, 0, 0, 0]) = []"
    by (simp add: store_with_counter_def fresh_world_def)
  have gn: "fst (getKeySeed toyP (unlocked ''salt-pw'') store_with_masterSeed) = Inr None"
    by (simp add: getKeySeed_def isUnlock_def unlocked_def db_listKeys_def
        store_with_masterSeed_def fresh_world_def toyP_def)
  have ms: "getMasterSeed toyP (unlocked ''salt-pw'') None store_with_masterSeed
      = (Inr (Some ''abc''), store_with_masterSeed\<lparr>trace := [GetItem ''db-kc-masterSeed'']\<rparr>)"
    by (simp add: getMasterSeed_def isUnlock_def unlocked_def db_listKeys_def db_get_def
        getItem_def opt_val_def store_with_masterSeed_def fresh_world_def toyP_def
        toy_decrypt_def)
  then have ms': "fst (getMasterSeed toyP (unlocked ''salt-pw'') None store_with_masterSeed)
      = Inr (Some ''abc'')"
    by simp
  have bs: "bootstrap_seed toyP (Some ''abc'') = Inr ''seed 03''"
    by (simp add: bootstrap_seed_def undef_val_def bindE_def pathRoot_def bytesToHex_def
        hex_digit_def toy_defs)
  have c1: "creation_calls toyP (encryptionKey (unlocked ''salt-pw'')) ''seed 03'' 0
        (keySeed_key toyP) = Inr (?keys, ?evs ''db-kc-keySeed'')"
    by (simp only: e kk toy_creation_calls)
  have s1: "stored_after (quota store_with_masterSeed)
        (SetItem (keySeed_key toyP)
           (keySeed_record toyP (encryptionKey (unlocked ''salt-pw'')) ''seed 03'' [0, 0, 0, 0])
         # ?evs ''db-kc-keySeed'')
        (items store_with_masterSeed) = Some ((''db-kc-masterSeed'', ''salt-pw|abc'') # ?new)"
    unfolding kk e
    by (simp add: store_with_masterSeed_def fresh_world_def ls_size_def keySeed_record_def
        toy_defs bytesToHex_def hex_digit_def)
  from createKeys_creates_profile [of toyP "unlocked ''salt-pw''" "store_with_counter [0, 0, 0, 0]"
      "''seed 03''" 0 ?keys "?evs ''db-kc-keySeed''" ?new
      "Some ''abc''" "''seed 03''" ?keys "?evs ''db-kc-keySeed''"
      "(''db-kc-masterSeed'', ''salt-pw|abc'') # ?new" TypeError]
    g0 vm c0 s0
  have a: "fst (createKeys toyP (unlocked ''salt-pw'') (store_with_counter [0, 0, 0, 0]))
       = Inr (Some ?keys)
     \<and> items (snd (createKeys toyP (unlocked ''salt-pw'') (store_with_counter [0, 0, 0, 0])))
       = ?new"
    by blast
  from createKeys_creates_profile [of toyP "unlocked ''salt-pw''" store_with_masterSeed
      "''seed 03''" 0 ?keys "?evs ''db-kc-keySeed''" ?new
      "Some ''abc''" "''seed 03''" ?keys "?evs ''db-kc-keySeed''"
      "(''db-kc-masterSeed'', ''salt-pw|abc'') # ?new" TypeError]
    e(2) toy_crypto_ok toy_record_ok gn ms' bs vm c1 s1
  have b: "fst (createKeys toyP (unlocked ''salt-pw'') store_with_masterSeed) = Inr (Some ?keys)
     \<and> items (snd (createKeys toyP (unlocked ''salt-pw'') store_with_masterSeed))
       = (''db-kc-masterSeed'', ''salt-pw|abc'') # ?new
     \<and> trace (snd (createKeys toyP (unlocked ''salt-pw'') store_with_masterSeed))
            = trace (snd (getMasterSeed toyP (unlocked ''salt-pw'') None store_with_masterSeed))
              @ SetItem (keySeed_key toyP)
                  (keySeed_record toyP (encryptionKey (unlocked ''salt-pw'')) ''seed 03'' [0, 0, 0, 0])
              # GetItem (keySeed_key toyP) # ?evs ''db-kc-keySeed''"
    by blast
  have n: "db_listKeys toyP (KCPREFIX toyP @ ''keySeed'') (fresh_world 2000) = []"
    "db_listKeys toyP (KCPREFIX toyP @ ''masterSeed'') (fresh_world 2000) = []"
    "fromMasterSeed toyP Undefined = Inl TypeError"
    by (simp_all add: db_listKeys_def fresh_world_def toy_defs)
  from createKeys_creates_profile [of toyP "unlocked ''salt-pw''" "fresh_world 2000"
      "''seed 03''" 0 ?keys "?evs ''db-kc-keySeed''" ?new
      "Some ''abc''" "''seed 03''" ?keys "?evs ''db-kc-keySeed''"
      "(''db-kc-masterSeed'', ''salt-pw|abc'') # ?new" TypeError]
    e(2) n
  have c: "createKeys toyP (unlocked ''salt-pw'') (fresh_world 2000)
      = (Inl TypeError, fresh_world 2000)"
    by blast
  from a b c show ?thesis by (simp add: ms kk e)
qed

section \<open>The auto-lock timer\<close>

text \<open>
  C8. \<open>unlock\<close> starts a new 30-second timer and stores its handle, but does not
  cancel the timer of an earlier \<open>unlock\<close>, which \<open>lock\<close> would have cancelled: every
  \<open>unlock\<close> adds a pending timer and removes none. So after an \<open>unlock\<close> at 0 ms and a
  second one at 20000 ms, the first timer fires at 30000 ms and blanks the key, 20
  seconds before the 30 seconds of the latest \<open>unlock\<close> are over.
\<close>

theorem unlock_again_leaves_first_timer:
  "timers (snd (unlock P passphrase kc w)) = timers w @ [(next_timer w, clock w + 30000)]
   \<and> (let s1 = unlock toyP ''pw'' new_container (fresh_world 1000);
           s2 = advance 20000 (fst s1) (snd s1);
           s3 = unlock toyP ''pw'' (fst s2) (snd s2);
           s4 = advance 10000 (fst s3) (snd s3)
       in isUnlock (fst s2) \<and> isUnlock (fst s3)
          \<and> timers (snd s3) = [(0, 30000), (1, 50000)]
          \<and> clock (snd s4) = 30000
          \<and> \<not> isUnlock (fst s4))"
  by (simp add: unlock_def setTimeout_def advance_def isUnlock_def new_container_def
      fresh_world_def toyP_def Let_def)

section \<open>A creation that cannot store a key\<close>

text \<open>
  C4, as the spec states it, fails: \<open>createKeys\<close> writes the keys one by one and
  nothing undoes a write. In a store with room for two more entries the third write
  throws, \<open>createKeys\<close> throws with it, and the two entries written before stay.
\<close>

theorem createKeys_atomic_counterexample:
  "fst (createKeys toyP (unlocked ''salt-pw'') small_store) = Inl QuotaExceededError
   \<and> items (snd (createKeys toyP (unlocked ''salt-pw'') small_store))
       = items small_store
         @ [(''db-kc-302f3007'', ''salt-pw|07302f30''), (''db-kc-02302f30'', ''salt-pw|07302f30'')]"
  by (simp add: toy_createKeys_quota) (simp add: small_store_def store_with_counter_def)

text \<open>
  C4, amended. \<open>createKeys\<close> is not atomic, but a failure never moves the counter:
  whenever \<open>createKeys\<close> throws on a store that has a key-seed record, the entries under
  the \<open>keySeed\<close> label, and so what \<open>getKeySeed\<close> reads, are what they were before the
  call. The keys written before the failure stay in the store.
\<close>

theorem createKeys_failure_keeps_counter:
  assumes "createKeys P kc w = (Inl e, w')" and "fst (getKeySeed P kc w) \<noteq> Inr None"
  shows "keySeed_entries P w' = keySeed_entries P w
     \<and> fst (getKeySeed P kc w') = fst (getKeySeed P kc w)"
proof -
  have "keySeed_entries P w' = keySeed_entries P w"
    using assms by (rule createKeys_failure_entries)
  then show ?thesis using getKeySeed_cong by blast
qed

theorem createKeys_failure_keeps_counter_witness:
  "fst (createKeys toyP (unlocked ''salt-pw'') small_store) = Inl QuotaExceededError
   \<and> keySeed_entries toyP (snd (createKeys toyP (unlocked ''salt-pw'') small_store))
       = keySeed_entries toyP small_store
   \<and> fst (getKeySeed toyP (unlocked ''salt-pw'')
            (snd (createKeys toyP (unlocked ''salt-pw'') small_store)))
       = Inr (Some (''seed 03'', 0))"
proof -
  have "keySeed_entries toyP small_store = keySeed_entries toyP (store_with_counter [0, 0, 0, 0])"
    by (simp add: small_store_def keySeed_entries_def)
  then have "fst (getKeySeed toyP (unlocked ''salt-pw'') small_store)
      = fst (getKeySeed toyP (unlocked ''salt-pw'') (store_with_counter [0, 0, 0, 0]))"
    by (rule getKeySeed_cong)
  then have g: "fst (getKeySeed toyP (unlocked ''salt-pw'') small_store)
      = Inr (Some (''seed 03'', 0))"
    by (simp add: toy_getKeySeed)
  then have n: "fst (getKeySeed toyP (unlocked ''salt-pw'') small_store) \<noteq> Inr None"
    by simp
  from createKeys_failure_keeps_counter [OF toy_createKeys_quota n] g
  show ?thesis by (simp add: toy_createKeys_quota)
qed

section \<open>Signing\<close>

text \<open>
  C5, as the spec states it, fails: \<open>sign\<close> does not look at what the lookup returned.
  With a decryption that refuses every input but a ciphertext made under its key, an
  address with no entry and an entry read under another key end in the same error,
  while the right key signs.
\<close>

theorem sign_not_found_counterexample:
  "map_of (items store_with_key) (DBPREFIX toyP @ KCPREFIX toyP @ ''ffff'') = None
   \<and> fst (sign toyP (unlocked ''salt-pw'') ''ffff'' (JStr ''hello'') store_with_key)
       = Inl (Error ''Could not decrypt message'')
   \<and> map_of (items store_with_key) (DBPREFIX toyP @ KCPREFIX toyP @ ''3031'')
       = Some ''salt-pw|3130''
   \<and> fst (sign toyP (unlocked ''salt-other'') ''3031'' (JStr ''hello'') store_with_key)
       = Inl (Error ''Could not decrypt message'')
   \<and> fst (sign toyP (unlocked ''salt-pw'') ''3031'' (JStr ''hello'') store_with_key)
       = Inr (JObj [(''signature'', JStr ''053130'')])"
  by (simp add: sign_def store_with_key_def opt_val_def toy_defs model_defs)

text \<open>
  C5, amended. On an unlocked container \<open>sign\<close> hands what it finds under the address,
  \<open>null\<close> when there is no entry, straight to \<open>decrypt\<close>: whenever that decryption
  throws, for a missing entry as for a ciphertext made under another key, \<open>sign\<close>
  throws the same error after its one read, writes nothing and returns no envelope.
  It has no not-found result of its own.
\<close>

theorem sign_passes_lookup_to_decrypt:
  assumes "isUnlock kc" and "toBuffer P data = Inr message"
    and "decrypt P (encryptionKey kc)
           (opt_val (map_of (items w) (DBPREFIX P @ KCPREFIX P @ addressHex))) = Inl e"
  shows "sign P kc addressHex data w
     = (Inl e, w\<lparr>trace := trace w @ [GetItem (DBPREFIX P @ KCPREFIX P @ addressHex)]\<rparr>)
     \<and> (map_of (items w) (DBPREFIX P @ KCPREFIX P @ addressHex) = None
          \<longrightarrow> decrypt P (encryptionKey kc) Null = Inl e)"
  using assms
  by (auto simp: sign_def isUnlock_def db_get_def getItem_def bindE_def opt_val_def)

theorem sign_passes_lookup_to_decrypt_witness:
  "sign toyP (unlocked ''salt-pw'') ''ffff'' (JStr ''hello'') store_with_key
     = (Inl (Error ''Could not decrypt message''),
        store_with_key\<lparr>trace := [GetItem ''db-kc-ffff'']\<rparr>)
   \<and> sign toyP (unlocked ''salt-other'') ''3031'' (JStr ''hello'') store_with_key
     = (Inl (Error ''Could not decrypt message''),
        store_with_key\<lparr>trace := [GetItem ''db-kc-3031'']\<rparr>)"
proof -
  have u: "isUnlock (unlocked ''salt-pw'')" "isUnlock (unlocked ''salt-other'')"
    by (simp_all add: isUnlock_def unlocked_def)
  have b: "toBuffer toyP (JStr ''hello'') = Inr (toy_bytes ''hello'')"
    by (simp add: toyP_def)
  have d1: "decrypt toyP (encryptionKey (unlocked ''salt-pw''))
       (opt_val (map_of (items store_with_key) (DBPREFIX toyP @ KCPREFIX toyP @ ''ffff'')))
      = Inl (Error ''Could not decrypt message'')"
    by (simp add: store_with_key_def opt_val_def toy_defs unlocked_def)
  have d2: "decrypt toyP (encryptionKey (unlocked ''salt-other''))
       (opt_val (map_of (items store_with_key) (DBPREFIX toyP @ KCPREFIX toyP @ ''3031'')))
      = Inl (Error ''Could not decrypt message'')"
    by (simp add: store_with_key_def opt_val_def toy_defs unlocked_def)
  have t: "trace store_with_key = []" by (simp add: store_with_key_def fresh_world_def)
  from sign_passes_lookup_to_decrypt [OF u(1) b d1] sign_passes_lookup_to_decrypt [OF u(2) b d2]
  show ?thesis by (simp add: t toyP_def)
qed

section \<open>Export and import\<close>

text \<open>
  C7, as the spec states it, fails: \<open>import\<close> checks nothing about the payload. A blob
  that decrypts to the text \<open>null\<close>, which is JSON and no set of entries, is imported
  without an error.
\<close>

theorem import_malformed_counterexample:
  "decrypt toyP ''salt-pw'' (JStr ''salt-pw|null'') = Inr ''null''
   \<and> JSON_parse toyP ''null'' = Inr Null
   \<and> db_import toyP ''salt-pw'' (JStr ''salt-pw|null'') (fresh_world 1000)
       = (Inr (), fresh_world 1000)"
  by (simp add: db_import_def bindS_def liftE_def bindE_def ret_def toy_defs)

text \<open>
  C7, amended. \<open>export\<close> on a container with no key prints the not-unlocked error,
  returns \<open>undefined\<close> and reads nothing. \<open>import\<close> throws what \<open>decrypt\<close> throws when
  the blob does not decrypt, and what \<^verbatim>\<open>JSON.parse\<close> throws when the decrypted text is
  not JSON, in both cases before any write. A payload that parses is not checked further.
\<close>

theorem export_import_failures:
  "(kc_encryptionKey = [] \<longrightarrow>
      db_export P kc_encryptionKey w = (None, console_log ''Error: KeyContainer not unlocked'' w))
   \<and> (decrypt P kc_encryptionKey dbEncr = Inl e \<longrightarrow>
      db_import P kc_encryptionKey dbEncr w = (Inl e, w))
   \<and> (decrypt P kc_encryptionKey dbEncr = Inr dbExpStr \<and> JSON_parse P dbExpStr = Inl e \<longrightarrow>
      db_import P kc_encryptionKey dbEncr w = (Inl e, w))"
  by (simp add: db_export_def db_import_def bindS_def liftE_def bindE_def)

theorem export_import_failures_witness:
  "db_export toyP [] (fresh_world 1000)
     = (None, console_log ''Error: KeyContainer not unlocked'' (fresh_world 1000))
   \<and> db_import toyP ''salt-other'' (JStr ''salt-pw|{}'') (fresh_world 1000)
     = (Inl (Error ''Could not decrypt message''), fresh_world 1000)
   \<and> db_import toyP ''salt-pw'' (JStr ''salt-pw|{bad'') (fresh_world 1000)
     = (Inl SyntaxError, fresh_world 1000)"
proof -
  have d1: "decrypt toyP ''salt-other'' (JStr ''salt-pw|{}'') = Inl (Error ''Could not decrypt message'')"
    by (simp add: toy_defs)
  have d2: "decrypt toyP ''salt-pw'' (JStr ''salt-pw|{bad'') = Inr ''{bad''"
    by (simp add: toy_defs)
  have p: "JSON_parse toyP ''{bad'' = Inl SyntaxError"
    by (simp add: toy_defs)
  from export_import_failures [of "[]" toyP "fresh_world 1000" "JStr ''salt-pw|{}''" e "''x''"]
    export_import_failures [of "''salt-other''" toyP "fresh_world 1000" "JStr ''salt-pw|{}''"
      "Error ''Could not decrypt message''" "''x''"]
    export_import_failures [of "''salt-pw''" toyP "fresh_world 1000" "JStr ''salt-pw|{bad''"
      SyntaxError "''{bad''"]
    d1 d2 p
  show ?thesis by simp
qed

text \<open>
  C6. On an unlocked container, \<open>export\<close> followed by \<open>import\<close> of the blob into a
  \<^verbatim>\<open>localStorage\<close> whose namespace is empty (no key contains the database prefix) and
  which has room for what the exporting store held succeeds, and afterwards every entry
  whose key contains the prefix is there with the value it had at export time, and no
  other entry with such a key; the entries outside the namespace are those of the
  target. This asks of the imported primitives that decrypting the blob under the key
  gives the payload back and that parsing the payload gives an object with the
  properties that were serialised, in any order; and of the prefix that it occurs in
  neither \<open>__proto__\<close> nor \<open>hasOwnProperty\<close>, the two names an object literal and the
  \<open>hasOwnProperty\<close> test treat apart.
\<close>

theorem export_import_roundtrip:
  assumes key: "key \<noteq> []"
    and pre: "\<not> sublist (DBPREFIX P) ''__proto__''" "\<not> sublist (DBPREFIX P) ''hasOwnProperty''"
    and crypto: "crypto_ok P key"
    and parse: "JSON_parse P (JSON_stringify P (JObj (exported_object P w))) = Inr (JObj obj')"
    and obj': "distinct (map fst obj')" "map_of obj' = map_of (exported_object P w)"
    and target: "\<forall>k \<in> fst ` set (items w0). \<not> sublist (DBPREFIX P) k"
      "ls_size (items w0) + ls_size (items w) \<le> quota w0"
  shows "\<exists>blob. fst (db_export P key w) = Some blob
     \<and> fst (db_import P key (JStr blob) w0) = Inr ()
     \<and> (\<forall>k. map_of (items (snd (db_import P key (JStr blob) w0))) k
             = (if sublist (DBPREFIX P) k then map_of (items w) k else map_of (items w0) k))"
proof -
  let ?blob = "encrypt P key (JSON_stringify P (JObj (exported_object P w)))"
  let ?f = "\<lambda>kv. (fst kv, str_of (snd kv))"
  have ex: "fst (db_export P key w) = Some ?blob"
    using key by (simp add: db_export_def exported_object_def split_beta)
  have dec: "decrypt P key (JStr ?blob) = Inr (JSON_stringify P (JObj (exported_object P w)))"
    using crypto by (simp add: crypto_ok_def)
  have entry: "sublist (DBPREFIX P) (fst kv)
      \<and> (\<exists>s. map_of (items w) (fst kv) = Some s \<and> snd kv = JStr s)" if "kv \<in> set obj'" for kv
  proof -
    have "map_of obj' (fst kv) = Some (snd kv)"
      using obj'(1) that by simp
    then have "map_of (exported_object P w) (fst kv) = Some (snd kv)"
      by (simp add: obj'(2))
    then show ?thesis
      by (auto simp: exported_object_map [OF pre(1)] split: if_splits)
  qed
  have nh: "''hasOwnProperty'' \<notin> fst ` set obj'"
    using entry pre(2) by fastforce
  have imp: "db_import P key (JStr ?blob) w0 = import_loop obj' w0"
    using nh by (simp add: db_import_def dec parse bindS_def liftE_def bindE_def)
  have vals: "\<forall>kv \<in> set obj'. \<exists>s. snd kv = JStr s"
    using entry by blast
  have fresh: "fst ` set obj' \<inter> fst ` set (items w0) = {}"
    using entry target(1) by fastforce
  have "distinct (map fst (map ?f obj'))" using obj'(1) by (simp add: comp_def)
  then have d: "distinct (map ?f obj')"
    using distinct_map [of fst "map ?f obj'"] by blast
  have sub: "set (map ?f obj') \<subseteq> set (items w)"
  proof
    fix e assume "e \<in> set (map ?f obj')"
    then obtain kv where kv: "kv \<in> set obj'" and e: "e = ?f kv" by auto
    from entry [OF kv] obtain s where "map_of (items w) (fst kv) = Some s" "snd kv = JStr s"
      by blast
    then show "e \<in> set (items w)" by (auto simp: e dest: map_of_SomeD)
  qed
  have "ls_size (map ?f obj') \<le> ls_size (items w)"
    unfolding ls_size_def using d sub by (rule sum_list_distinct_subset)
  with target(2) have room: "ls_size (items w0) + ls_size (map ?f obj') \<le> quota w0"
    by simp
  from import_loop_fresh [OF obj'(1) vals fresh room]
  have ok: "fst (import_loop obj' w0) = Inr ()"
    and its: "items (snd (import_loop obj' w0)) = items w0 @ map ?f obj'"
    by simp_all
  have new: "map_of (map ?f obj') k
      = (if sublist (DBPREFIX P) k then map_of (items w) k else None)" for k
    by (simp add: map_of_str_of obj'(2) exported_object_map [OF pre(1)] option.map_comp comp_def
        option.map_ident)
  have old: "map_of (items w0) k = None" if "sublist (DBPREFIX P) k" for k
    using that target(1) by (auto simp: map_of_eq_None_iff)
  have "map_of (items w0 @ map ?f obj') k
      = (if sublist (DBPREFIX P) k then map_of (items w) k else map_of (items w0) k)" for k
    by (simp add: new old map_add_def split: option.splits)
  with ex ok its show ?thesis by (simp add: imp)
qed

theorem export_import_roundtrip_witness:
  "(\<exists>blob. fst (db_export toyP ''salt-pw'' store_two) = Some blob
     \<and> fst (db_import toyP ''salt-pw'' (JStr blob) store_other) = Inr ()
     \<and> map_of (items (snd (db_import toyP ''salt-pw'' (JStr blob) store_other)))
          ''db-kc-3031'' = Some ''salt-pw|3130''
     \<and> map_of (items (snd (db_import toyP ''salt-pw'' (JStr blob) store_other)))
          ''theme'' = Some ''light'')"
proof -
  have k: "''salt-pw'' \<noteq> []" by simp
  have p: "\<not> sublist (DBPREFIX toyP) ''__proto__''" "\<not> sublist (DBPREFIX toyP) ''hasOwnProperty''"
    by (simp_all add: toyP_def sublist_Cons_right)
  have j: "JSON_parse toyP (JSON_stringify toyP (JObj (exported_object toyP store_two)))
      = Inr (JObj [(''db-kc-3031'', JStr ''salt-pw|3130'')])"
    unfolding toy_exported_object
    using toy_parse_single [of "''db-kc-3031''" "''salt-pw|3130''"]
    by (simp add: toyP_def del: toy_stringify.simps)
  have d: "distinct (map fst [(''db-kc-3031'', JStr ''salt-pw|3130'')])" by simp
  have m: "map_of [(''db-kc-3031'', JStr ''salt-pw|3130'')] = map_of (exported_object toyP store_two)"
    by (simp add: toy_exported_object)
  have t: "\<forall>k \<in> fst ` set (items store_other). \<not> sublist (DBPREFIX toyP) k"
    "ls_size (items store_other) + ls_size (items store_two) \<le> quota store_other"
    by (simp_all add: store_other_def store_two_def fresh_world_def ls_size_def toyP_def
        sublist_Cons_right)
  have s: "sublist (DBPREFIX toyP) ''db-kc-3031''" "\<not> sublist (DBPREFIX toyP) ''theme''"
    by (simp_all add: toyP_def sublist_Cons_right)
  from export_import_roundtrip [OF k p toy_crypto_ok j d m t] s
  show ?thesis by (auto simp: store_two_def store_other_def fresh_world_def)
qed

end
